theory Spec2Isabelle
  imports Main
begin

section \<open>Python values, exceptions and effects\<close>

text \<open>
  Both notebooks are Python. An exception is a value of type \<open>error\<close>; a computation
  that can raise returns \<open>error + 'a\<close> with \<open>Inl\<close> for the exception. Calls that reach
  the outside world (the hosted completion endpoint) thread an explicit world state
  \<open>'w\<close>, so that the number and the order of the calls are observable.
  A Python \<open>str\<close> is a sequence of Unicode code points: \<open>pystr\<close> is the list of the
  code points as natural numbers, so \<open>ord\<close> of a character is the number itself. The
  texts that the notebooks write out are given as literals: \<open>cp c\<close> is the code point of
  the character \<open>c\<close> and \<open>py s\<close> the Python string of the literal \<open>s\<close>.
\<close>

type_synonym pystr = "nat list"

definition cp :: "char \<Rightarrow> nat" where
  "cp c = of_char c"

definition py :: "string \<Rightarrow> pystr" where
  "py s = map cp s"

datatype api_failure = APIConnectionError | AuthenticationError | RateLimitError | OtherAPIError pystr

datatype error =
    APIError api_failure
  | IndexError
  | KeyError pystr
  | ValueError
  | TypeError

type_synonym ('a, 'w) io = "'w \<Rightarrow> (error + 'a) \<times> 'w"

subsection \<open>\<open>str.format\<close> with keyword arguments\<close>

text \<open>
  \<open>template.format(k1=v1, ...)\<close>: literal text is copied, \<open>{{\<close> and \<open>}}\<close> are escaped
  braces, \<open>{name}\<close> is replaced by the keyword argument of that name (KeyError when it
  is missing; IndexError for an empty or numeric name, since no positional argument is
  passed), a single \<open>}\<close> or an unclosed \<open>{\<close> is a ValueError. The text is scanned once,
  left to right; substituted values are not scanned again. Attribute and index access,
  conversions and format specifications (\<open>{a.b}\<close>, \<open>{a[0]}\<close>, \<open>!r\<close>, \<open>:>10\<close>) do not occur
  in the templates and are not modelled.
  The second argument of \<open>format_from\<close> is the field name read so far, when the scan is
  inside a replacement field.
\<close>

definition positional :: "pystr \<Rightarrow> bool" where
  "positional name = list_all (\<lambda>c. c \<in> set (py ''0123456789'')) name"

fun format_from :: "(pystr \<Rightarrow> pystr option) \<Rightarrow> pystr option \<Rightarrow> pystr \<Rightarrow> error + pystr" where
  "format_from kw None [] = Inr []"
| "format_from kw (Some name) [] = Inl ValueError"
| "format_from kw None (c # cs) =
     (if c = cp (CHR ''{'') then
        (case cs of
           [] \<Rightarrow> Inl ValueError
         | c' # cs' \<Rightarrow>
             if c' = cp (CHR ''{'') then map_sum id ((#) c) (format_from kw None cs')
             else format_from kw (Some []) cs)
      else if c = cp (CHR ''}'') then
        (case cs of
           [] \<Rightarrow> Inl ValueError
         | c' # cs' \<Rightarrow>
             if c' = cp (CHR ''}'') then map_sum id ((#) c) (format_from kw None cs')
             else Inl ValueError)
      else map_sum id ((#) c) (format_from kw None cs))"
| "format_from kw (Some name) (c # cs) =
     (if c = cp (CHR ''}'') then
        (if positional name then Inl IndexError
         else case kw name of
                None \<Rightarrow> Inl (KeyError name)
              | Some v \<Rightarrow> map_sum id ((@) v) (format_from kw None cs))
      else format_from kw (Some (name @ [c])) cs)"

definition format :: "pystr \<Rightarrow> (pystr \<times> pystr) list \<Rightarrow> error + pystr" where
  "format template kwargs = format_from (map_of kwargs) None template"

subsection \<open>The hosted chat-completion endpoint\<close>

text \<open>
  \<open>client.chat.completions.create(model=..., messages=[...])\<close> is a call to an external
  service. It is a parameter of the model: given the request and the world, it returns
  the provider's response or raises, and leaves a new world.
\<close>

record message =
  role :: pystr
  content :: pystr

record request =
  model :: pystr
  messages :: "message list"

record choice =
  message :: message

record response =
  choices :: "choice list"

type_synonym 'w endpoint = "request \<Rightarrow> 'w \<Rightarrow> (error + response) \<times> 'w"

section \<open>Menu chat pipeline (demo/session-3/food-chatflow.ipynb)\<close>

text \<open>The notebook's \<open>generate_response\<close>; the model identifier is \<open>gpt-4o\<close>.\<close>

definition generate_response :: "'w endpoint \<Rightarrow> pystr \<Rightarrow> (pystr, 'w) io" where
  "generate_response create prompt w =
     (case create \<lparr>model = py ''gpt-4o'', messages = [\<lparr>role = py ''user'', content = prompt\<rparr>]\<rparr> w of
        (Inl e, w') \<Rightarrow> (Inl e, w')
      | (Inr response, w') \<Rightarrow>
          (case choices response of
             [] \<Rightarrow> (Inl IndexError, w')
           | c # _ \<Rightarrow> (Inr (content (message c)), w')))"

definition menu_items :: pystr where
  \<open>menu_items =
     py ''\<newline>'' @
     py ''Menu: Kids Menu    \<newline>'' @
     py ''Food Item: Mini Cheeseburger\<newline>'' @
     py ''Price: $6.99\<newline>'' @
     py ''Vegan: N\<newline>'' @
     py ''Popularity: 4/5\<newline>'' @
     py ''Included: Mini beef patty, cheese, lettuce, tomato, and fries.\<newline>'' @
     py ''\<newline>'' @
     py ''Menu: Appetizers\<newline>'' @
     py ''Food Item: Loaded Potato Skins\<newline>'' @
     py ''Price: $8.99\<newline>'' @
     py ''Vegan: N\<newline>'' @
     py ''Popularity: 3/5\<newline>'' @
     py ''Included: Crispy potato skins filled with cheese, bacon bits, and served with sour cream.\<newline>'' @
     py ''\<newline>'' @
     py ''Menu: Appetizers\<newline>'' @
     py ''Food Item: Bruschetta\<newline>'' @
     py ''Price: $7.99\<newline>'' @
     py ''Vegan: Y\<newline>'' @
     py ''Popularity: 4/5\<newline>'' @
     py ''Included: Toasted baguette slices topped with fresh tomatoes, basil, garlic, and balsamic glaze.\<newline>'' @
     py ''\<newline>'' @
     py ''Menu: Main Menu\<newline>'' @
     py ''Food Item: Grilled Chicken Caesar Salad\<newline>'' @
     py ''Price: $12.99\<newline>'' @
     py ''Vegan: N\<newline>'' @
     py ''Popularity: 4/5\<newline>'' @
     py ''Included: Grilled chicken breast, romaine lettuce, Parmesan cheese, croutons, and Caesar dressing.\<newline>'' @
     py ''\<newline>'' @
     py ''Menu: Main Menu\<newline>'' @
     py ''Food Item: Classic Cheese Pizza\<newline>'' @
     py ''Price: $10.99\<newline>'' @
     py ''Vegan: N\<newline>'' @
     py ''Popularity: 5/5\<newline>'' @
     py ''Included: Thin-crust pizza topped with tomato sauce, mozzarella cheese, and fresh basil.\<newline>'' @
     py ''\<newline>'' @
     py ''Menu: Main Menu\<newline>'' @
     py ''Food Item: Spaghetti Bolognese\<newline>'' @
     py ''Price: $14.99\<newline>'' @
     py ''Vegan: N\<newline>'' @
     py ''Popularity: 4/5\<newline>'' @
     py ''Included: Pasta tossed in a savory meat sauce made with ground beef, tomatoes, onions, and herbs.\<newline>'' @
     py ''\<newline>'' @
     py ''Menu: Vegan Options\<newline>'' @
     py ''Food Item: Veggie Wrap\<newline>'' @
     py ''Price: $9.99\<newline>'' @
     py ''Vegan: Y\<newline>'' @
     py ''Popularity: 3/5\<newline>'' @
     py ''Included: Grilled vegetables, hummus, mixed greens, and a wrap served with a side of sweet potato fries.\<newline>'' @
     py ''\<newline>'' @
     py ''Menu: Vegan Options\<newline>'' @
     py ''Food Item: Vegan Beyond Burger\<newline>'' @
     py ''Price: $11.99\<newline>'' @
     py ''Vegan: Y\<newline>'' @
     py ''Popularity: 4/5\<newline>'' @
     py ''Included: Plant-based patty, vegan cheese, lettuce, tomato, onion, and a choice of regular or sweet potato fries.\<newline>'' @
     py ''\<newline>'' @
     py ''Menu: Desserts\<newline>'' @
     py ''Food Item: Chocolate Lava Cake\<newline>'' @
     py ''Price: $6.99\<newline>'' @
     py ''Vegan: N\<newline>'' @
     py ''Popularity: 5/5\<newline>'' @
     py ''Included: Warm chocolate cake with a gooey molten center, served with vanilla ice cream.\<newline>'' @
     py ''\<newline>'' @
     py ''Menu: Desserts\<newline>'' @
     py ''Food Item: Fresh Berry Parfait\<newline>'' @
     py ''Price: $5.99\<newline>'' @
     py ''Vegan: Y\<newline>'' @
     py ''Popularity: 4/5\<newline>'' @
     py ''Included: Layers of mixed berries, granola, and vegan coconut yogurt.\<newline>''\<close>

text \<open>
  Each stage's \<open>prompt_template\<close> is written as its literal parts (\<open>..._text1\<close>,
  \<open>..._text2\<close>, ...) with the replacement fields between them; the template is the
  notebook's string, character for character.
\<close>

definition reasoning_text1 :: pystr where
  \<open>reasoning_text1 =
     py ''\<newline>'' @
     py ''    Your task is to answer questions factually about a food menu, provided below and delimited by +++++. The user request is provided here: ''\<close>

definition reasoning_text2 :: pystr where
  \<open>reasoning_text2 =
     py ''\<newline>'' @
     py ''\<newline>'' @
     py ''    Step 1: The first step is to check if the user is asking a question related to any type of food (even if that food item is not on the menu). If the question is about any type of food, we move on to Step 2 and ignore the rest of Step 1. If the question is not about food, then we send a response: "Sorry! I cannot help with that. Please let me know if you have a question about our food menu."\<newline>'' @
     py ''\<newline>'' @
     py ''    Step 2: In this step, we check that the user question is relevant to any of the items on the food menu. You should check that the food item exists in our menu first. If it doesn'' @ [cp (CHR 0x27)] @ py ''t exist then send a kind response to the user that the item doesn'' @ [cp (CHR 0x27)] @ py ''t exist in our menu and then include a list of available but similar food items without any other details (e.g., price). The food items available are provided below and delimited by +++++:\<newline>'' @
     py ''\<newline>'' @
     py ''    +++++\<newline>'' @
     py ''    ''\<close>

definition reasoning_text3 :: pystr where
  \<open>reasoning_text3 =
     py ''\<newline>'' @
     py ''    +++++\<newline>'' @
     py ''\<newline>'' @
     py ''    Step 3: If the item exists in our food menu and the user is requesting specific information, provide that relevant information to the user using the food menu. Make sure to use a friendly tone and keep the response concise.\<newline>'' @
     py ''\<newline>'' @
     py ''    Perform the following reasoning steps to send a response to the user:\<newline>'' @
     py ''    Step 1: <Step 1 reasoning>\<newline>'' @
     py ''    Step 2: <Step 2 reasoning>\<newline>'' @
     py ''    Response to the user (only output the final response): <response to user>\<newline>'' @
     py ''    ''\<close>

definition reasoning_template :: pystr where
  "reasoning_template =
     reasoning_text1 @ py ''{request}'' @ reasoning_text2 @ py ''{menu_items}'' @ reasoning_text3"

definition reasoning_step :: "'w endpoint \<Rightarrow> pystr \<Rightarrow> pystr \<Rightarrow> (pystr, 'w) io" where
  "reasoning_step create user_query menu w =
     (case format reasoning_template [(py ''request'', user_query), (py ''menu_items'', menu)] of
        Inl e \<Rightarrow> (Inl e, w)
      | Inr prompt \<Rightarrow> generate_response create prompt w)"

definition extraction_text1 :: pystr where
  \<open>extraction_text1 =
     py ''\<newline>'' @
     py ''    Extract the final response from delimited by ###.\<newline>'' @
     py ''\<newline>'' @
     py ''    ###\<newline>'' @
     py ''    ''\<close>

definition extraction_text2 :: pystr where
  \<open>extraction_text2 =
     py ''. \<newline>'' @
     py ''    ###\<newline>'' @
     py ''\<newline>'' @
     py ''    Only output what comes after "Response to the user:".\<newline>'' @
     py ''    ''\<close>

definition extraction_template :: pystr where
  "extraction_template =
     extraction_text1 @ py ''{reasoning}'' @ extraction_text2"

definition extraction_step :: "'w endpoint \<Rightarrow> pystr \<Rightarrow> (pystr, 'w) io" where
  "extraction_step create reasoning w =
     (case format extraction_template [(py ''reasoning'', reasoning)] of
        Inl e \<Rightarrow> (Inl e, w)
      | Inr prompt \<Rightarrow> generate_response create prompt w)"

definition refinement_text1 :: pystr where
  \<open>refinement_text1 =
     py ''\<newline>'' @
     py ''    Perform the following refinement steps on the final output delimited by ###.\<newline>'' @
     py ''\<newline>'' @
     py ''    1). Shorten the text to one sentence\<newline>'' @
     py ''    2). Use a friendly tone\<newline>'' @
     py ''\<newline>'' @
     py ''    ###\<newline>'' @
     py ''    ''\<close>

definition refinement_text2 :: pystr where
  \<open>refinement_text2 =
     py ''\<newline>'' @
     py ''    ###\<newline>'' @
     py ''    ''\<close>

definition refinement_template :: pystr where
  "refinement_template =
     refinement_text1 @ py ''{final_response}'' @ refinement_text2"

definition refinement_step :: "'w endpoint \<Rightarrow> pystr \<Rightarrow> (pystr, 'w) io" where
  "refinement_step create final_response w =
     (case format refinement_template [(py ''final_response'', final_response)] of
        Inl e \<Rightarrow> (Inl e, w)
      | Inr prompt \<Rightarrow> generate_response create prompt w)"

definition verification_text1 :: pystr where
  \<open>verification_text1 =
     py ''\<newline>'' @
     py ''    Your task is to check that the refined response (delimited by ###) is providing a factual response based on the user question (delimited by @@@) and the menu below (delimited by +++++). If yes, just output the refined response in its original form (without the delimiters). If no, then make the correction to the response and return the new response only.\<newline>'' @
     py ''\<newline>'' @
     py ''    User question: @@@ ''\<close>

definition verification_text2 :: pystr where
  \<open>verification_text2 =
     py '' @@@\<newline>'' @
     py ''\<newline>'' @
     py ''    Refined response: ### ''\<close>

definition verification_text3 :: pystr where
  \<open>verification_text3 =
     py '' ###\<newline>'' @
     py ''\<newline>'' @
     py ''    +++++\<newline>'' @
     py ''    ''\<close>

definition verification_text4 :: pystr where
  \<open>verification_text4 =
     py ''\<newline>'' @
     py ''    +++++\<newline>'' @
     py ''    ''\<close>

definition verification_template :: pystr where
  "verification_template =
     verification_text1 @ py ''{user_question}'' @ verification_text2 @ py ''{refined_response}'' @ verification_text3 @ py ''{menu_items}'' @ verification_text4"

definition verification_step :: "'w endpoint \<Rightarrow> pystr \<Rightarrow> pystr \<Rightarrow> pystr \<Rightarrow> (pystr, 'w) io" where
  "verification_step create user_question refined_response menu w =
     (case format verification_template
             [(py ''user_question'', user_question), (py ''refined_response'', refined_response),
              (py ''menu_items'', menu)] of
        Inl e \<Rightarrow> (Inl e, w)
      | Inr prompt \<Rightarrow> generate_response create prompt w)"

text \<open>
  What a notebook function hands back: a plain \<open>str\<close>, or the display object
  \<open>IPython.display.Markdown(data)\<close> that wraps one.
\<close>

datatype pyvalue = Str pystr | Markdown pystr

definition generate_food_chatbot :: "'w endpoint \<Rightarrow> pystr \<Rightarrow> pystr \<Rightarrow> (pyvalue, 'w) io" where
  "generate_food_chatbot create user_query menu w =
     (case reasoning_step create user_query menu w of
        (Inl e, w1) \<Rightarrow> (Inl e, w1)
      | (Inr reasoning, w1) \<Rightarrow>
     (case extraction_step create reasoning w1 of
        (Inl e, w2) \<Rightarrow> (Inl e, w2)
      | (Inr extraction, w2) \<Rightarrow>
     (case refinement_step create extraction w2 of
        (Inl e, w3) \<Rightarrow> (Inl e, w3)
      | (Inr refinement, w3) \<Rightarrow>
     (case verification_step create user_query refinement menu w3 of
        (Inl e, w4) \<Rightarrow> (Inl e, w4)
      | (Inr verification, w4) \<Rightarrow> (Inr (Markdown verification), w4)))))"


section \<open>Title-suggestion pipeline (the RAG notebook)\<close>

text \<open>The RAG notebook's own \<open>generate_response\<close>; its model identifier is \<open>gpt-4o-mini\<close>.\<close>

definition rag_generate_response :: "'w endpoint \<Rightarrow> pystr \<Rightarrow> (pystr, 'w) io" where
  "rag_generate_response create prompt w =
     (case create \<lparr>model = py ''gpt-4o-mini'', messages = [\<lparr>role = py ''user'', content = prompt\<rparr>]\<rparr> w of
        (Inl e, w') \<Rightarrow> (Inl e, w')
      | (Inr response, w') \<Rightarrow>
          (case choices response of
             [] \<Rightarrow> (Inl IndexError, w')
           | c # _ \<Rightarrow> (Inr (content (message c)), w')))"

subsection \<open>Step 1: the dataset\<close>

text \<open>
  A data row of the CSV file, as the texts of its five fields (the header line names
  the columns).
\<close>

record csv_row =
  raw_Title :: pystr
  raw_Description :: pystr
  raw_PaperURL :: pystr
  raw_TweetURL :: pystr
  raw_Abstract :: pystr

text \<open>
  A row of the frame that \<open>pd.read_csv(..., header=0)\<close> returns, and after
  \<open>to_dict(orient="records")\<close> a dict with the same keys. A cell is \<open>None\<close> when pandas
  holds a missing value (NaN) there and \<open>Some s\<close> when it holds the text \<open>s\<close>.
\<close>

record paper =
  Title :: "pystr option"
  Description :: "pystr option"
  PaperURL :: "pystr option"
  TweetURL :: "pystr option"
  Abstract :: "pystr option"

definition dropna :: "(paper \<Rightarrow> pystr option) list \<Rightarrow> paper list \<Rightarrow> paper list" where
  "dropna subset_cols df = filter (\<lambda>row. list_all (\<lambda>col. col row \<noteq> None) subset_cols) df"

text \<open>
  \<open>pd.read_csv\<close> with its default settings (\<open>na_values=None, keep_default_na=True\<close>)
  reads a field as a missing value when its text is empty or one of the markers that the
  pandas documentation lists as interpreted as NaN by default; every other text is kept
  as it is. The columns are text columns (the conversion of an all-numeric column to
  numbers is not modelled).
\<close>

definition na_values :: "pystr list" where
  "na_values =
     [[], py ''#N/A'', py ''#N/A N/A'', py ''#NA'', py ''-1.#IND'', py ''-1.#QNAN'', py ''-NaN'', py ''-nan'',
      py ''1.#IND'', py ''1.#QNAN'', py ''<NA>'', py ''N/A'', py ''NA'', py ''NULL'', py ''NaN'', py ''None'', py ''n/a'',
      py ''nan'', py ''null'']"

definition read_cell :: "pystr \<Rightarrow> pystr option" where
  "read_cell field = (if field \<in> set na_values then None else Some field)"

definition read_csv :: "csv_row list \<Rightarrow> paper list" where
  "read_csv rows =
     map (\<lambda>r. \<lparr>Title = read_cell (raw_Title r), Description = read_cell (raw_Description r),
               PaperURL = read_cell (raw_PaperURL r), TweetURL = read_cell (raw_TweetURL r),
               Abstract = read_cell (raw_Abstract r)\<rparr>) rows"

text \<open>The first cell of the notebook's step 1; \<open>rows\<close> are the data rows of the file.\<close>

definition ml_papers :: "csv_row list \<Rightarrow> paper list" where
  "ml_papers rows = dropna [Title, Description] (read_csv rows)"

definition ml_papers_dict :: "csv_row list \<Rightarrow> paper list" where
  "ml_papers_dict rows = ml_papers rows"

subsection \<open>Python built-ins used by the indexing cell\<close>

definition ord :: "nat \<Rightarrow> int" where
  "ord c = int c"

definition digit :: "nat \<Rightarrow> nat" where
  "digit d = cp (CHR ''0'') + d"

function str_nat :: "nat \<Rightarrow> pystr" where
  "str_nat n = (if n < 10 then [digit n] else str_nat (n div 10) @ [digit (n mod 10)])"
  by pat_completeness auto
termination
  by (relation "measure id") auto

definition str :: "int \<Rightarrow> pystr" where
  "str i = (if i < 0 then cp (CHR ''-'') # str_nat (nat (- i)) else str_nat (nat i))"

text \<open>\<open>str(x)\<close> of a cell: the text itself, or \<open>nan\<close> for a missing value.\<close>

definition str_cell :: "pystr option \<Rightarrow> pystr" where
  "str_cell x = (case x of None \<Rightarrow> (py ''nan'') | Some s \<Rightarrow> s)"

text \<open>
  The state of the \<open>random\<close> module is a tape of raw draws. \<open>random.randint(a, b)\<close> for
  \<open>a \<le> b\<close> consumes one draw and returns an integer of the closed interval from \<open>a\<close>
  to \<open>b\<close>; the notebook's only call is \<open>randint(1, 10000)\<close>.
\<close>

type_synonym rng = "nat \<Rightarrow> nat"

definition randint :: "int \<Rightarrow> int \<Rightarrow> rng \<Rightarrow> int \<times> rng" where
  "randint a b g = (a + int (g 0 mod nat (b - a + 1)), \<lambda>n. g (Suc n))"

text \<open>\<open>xs[i : j]\<close> for \<open>0 \<le> i\<close>: both ends are clamped to the length.\<close>

definition slice :: "nat \<Rightarrow> nat \<Rightarrow> 'a list \<Rightarrow> 'a list" where
  "slice i j xs = take (j - i) (drop i xs)"

text \<open>\<open>range(i, n, step)\<close> for a positive step.\<close>

function range_step :: "nat \<Rightarrow> nat \<Rightarrow> nat \<Rightarrow> nat list" where
  "range_step i n step = (if i < n \<and> 0 < step then i # range_step (i + step) n step else [])"
  by pat_completeness auto
termination
  by (relation "measure (\<lambda>(i, n, step). n - i)") auto

text \<open>\<open>sep.join(xs)\<close>.\<close>

fun join :: "pystr \<Rightarrow> pystr list \<Rightarrow> pystr" where
  "join sep [] = []"
| "join sep [x] = x"
| "join sep (x # y # ys) = x @ sep @ join sep (y # ys)"

subsection \<open>The vector store\<close>

text \<open>
  Modelled from the spec: the vector store (a chromadb collection) is an external
  library, so \<open>collection.upsert\<close> and \<open>collection.query\<close> are not code of the
  notebooks. The spec's data model gives an Indexed Document an id, a text, an
  embedding and metadata; its glossary calls upsert an insert-or-update operation keyed
  by id; its section on the retriever has the query embed the text, search the stored
  vectors and return the k nearest documents, closest first, with metric and tie-break
  left to the store. The collection is kept in insertion order. The four argument lists
  of an upsert call describe one document per position.
\<close>

record metadata =
  url :: "pystr option"
  abstract :: "pystr option"

record 'v document =
  doc_id :: pystr
  doc_text :: pystr
  doc_embedding :: 'v
  doc_metadata :: metadata

type_synonym 'v collection = "'v document list"

fun upsert_one :: "'v document \<Rightarrow> 'v collection \<Rightarrow> 'v collection" where
  "upsert_one d [] = [d]"
| "upsert_one d (x # xs) = (if doc_id x = doc_id d then d # xs else x # upsert_one d xs)"

fun documents_of :: "pystr list \<Rightarrow> metadata list \<Rightarrow> pystr list \<Rightarrow> 'v list \<Rightarrow> 'v document list" where
  "documents_of (i # ids) (m # metadatas) (t # documents) (e # embeddings) =
     \<lparr>doc_id = i, doc_text = t, doc_embedding = e, doc_metadata = m\<rparr>
       # documents_of ids metadatas documents embeddings"
| "documents_of _ _ _ _ = []"

definition upsert ::
  "pystr list \<Rightarrow> metadata list \<Rightarrow> pystr list \<Rightarrow> 'v list \<Rightarrow> 'v collection \<Rightarrow> error + 'v collection" where
  "upsert ids metadatas documents embeddings col =
     (if length metadatas = length ids \<and> length documents = length ids \<and> length embeddings = length ids
      then Inr (fold upsert_one (documents_of ids metadatas documents embeddings) col)
      else Inl ValueError)"

text \<open>
  Modelled from the spec: \<open>collection.query(query_texts=..., n_results=k)\<close> of the external
  store, one ranked list per query text: the \<open>k\<close> stored documents most similar to the
  embedded query, closest first. The embedding function of the collection and the
  similarity (scores in any linear order) are parameters; ties are broken by position.
\<close>

definition ranked :: "('v \<Rightarrow> 'v \<Rightarrow> 's::linorder) \<Rightarrow> 'v \<Rightarrow> 'v collection \<Rightarrow> 'v collection" where
  "ranked similarity q col = rev (sort_key (\<lambda>d. similarity q (doc_embedding d)) col)"

definition query ::
  "(pystr \<Rightarrow> 'v) \<Rightarrow> ('v \<Rightarrow> 'v \<Rightarrow> 's::linorder) \<Rightarrow> 'v collection \<Rightarrow> pystr list \<Rightarrow> nat \<Rightarrow> 'v collection list" where
  "query embed_fn similarity col query_texts n_results =
     map (\<lambda>q. take n_results (ranked similarity (embed_fn q) col)) query_texts"

subsection \<open>Step 2: indexing in batches\<close>

definition batch_size :: nat where
  "batch_size = 50"

definition batch_titles :: "paper list \<Rightarrow> pystr list" where
  "batch_titles batch =
     map (\<lambda>paper. if str_cell (Title paper) \<noteq> [] then str_cell (Title paper) else (py ''No Title'')) batch"

text \<open>
  \<open>str(sum(ord(c) + random.randint(1, 10000) for c in paper["Title"]))\<close>: the sum starts
  at 0 and takes the characters left to right, one draw each. Iterating over a missing
  value (a float) is a TypeError.
\<close>

definition title_sum :: "pystr \<Rightarrow> rng \<Rightarrow> int \<times> rng" where
  "title_sum title g =
     fold (\<lambda>c (s, g). case randint 1 10000 g of (r, g') \<Rightarrow> (s + (ord c + r), g')) title (0, g)"

definition paper_id :: "paper \<Rightarrow> rng \<Rightarrow> (error + pystr) \<times> rng" where
  "paper_id paper g =
     (case Title paper of
        None \<Rightarrow> (Inl TypeError, g)
      | Some title \<Rightarrow> (case title_sum title g of (s, g') \<Rightarrow> (Inr (str s), g')))"

fun batch_ids :: "paper list \<Rightarrow> rng \<Rightarrow> (error + pystr list) \<times> rng" where
  "batch_ids [] g = (Inr [], g)"
| "batch_ids (paper # batch) g =
     (case paper_id paper g of
        (Inl e, g') \<Rightarrow> (Inl e, g')
      | (Inr i, g') \<Rightarrow>
          (case batch_ids batch g' of
             (Inl e, g'') \<Rightarrow> (Inl e, g'')
           | (Inr ids, g'') \<Rightarrow> (Inr (i # ids), g'')))"

definition batch_metadata :: "paper list \<Rightarrow> metadata list" where
  "batch_metadata batch = map (\<lambda>paper. \<lparr>url = PaperURL paper, abstract = Abstract paper\<rparr>) batch"

text \<open>
  The body of the loop for one batch. The state is the generator and the store behind
  the global \<open>collection\<close>; \<open>collection_upsert\<close> is its \<open>upsert\<close> method (the function
  \<open>upsert\<close> above for the store modelled from the spec) and \<open>encode\<close> is the embedding
  model, applied to each title of the batch.
\<close>

type_synonym ('v, 's) upsert_method =
  "pystr list \<Rightarrow> metadata list \<Rightarrow> pystr list \<Rightarrow> 'v list \<Rightarrow> 's \<Rightarrow> error + 's"

definition index_batch ::
  "('v, 's) upsert_method \<Rightarrow> (pystr \<Rightarrow> 'v) \<Rightarrow> paper list \<Rightarrow> (unit, rng \<times> 's) io" where
  "index_batch collection_upsert encode batch st =
     (case st of (g, col) \<Rightarrow>
        (case batch_ids batch g of
           (Inl e, g') \<Rightarrow> (Inl e, (g', col))
         | (Inr ids, g') \<Rightarrow>
             (case collection_upsert ids (batch_metadata batch) (batch_titles batch)
                     (map encode (batch_titles batch)) col of
                Inl e \<Rightarrow> (Inl e, (g', col))
              | Inr col' \<Rightarrow> (Inr (), (g', col')))))"

fun index_loop ::
  "('v, 's) upsert_method \<Rightarrow> (pystr \<Rightarrow> 'v) \<Rightarrow> paper list \<Rightarrow> nat list \<Rightarrow> (unit, rng \<times> 's) io" where
  "index_loop collection_upsert encode papers [] st = (Inr (), st)"
| "index_loop collection_upsert encode papers (i # starts) st =
     (case index_batch collection_upsert encode (slice i (i + batch_size) papers) st of
        (Inl e, st') \<Rightarrow> (Inl e, st')
      | (Inr _, st') \<Rightarrow> index_loop collection_upsert encode papers starts st')"

definition index_papers ::
  "('v, 's) upsert_method \<Rightarrow> (pystr \<Rightarrow> 'v) \<Rightarrow> paper list \<Rightarrow> (unit, rng \<times> 's) io" where
  "index_papers collection_upsert encode papers st =
     index_loop collection_upsert encode papers (range_step 0 (length papers) batch_size) st"

subsection \<open>Steps 3 and 4: retrieval and the final prompt\<close>

text \<open>\<open>collection.query(query_texts=[text], n_results=k)["documents"][0]\<close>.\<close>

definition retriever_results ::
  "(pystr \<Rightarrow> 'v) \<Rightarrow> ('v \<Rightarrow> 'v \<Rightarrow> 's::linorder) \<Rightarrow> 'v collection \<Rightarrow> pystr \<Rightarrow> nat \<Rightarrow> error + pystr list" where
  "retriever_results embed_fn similarity col query_text n_results =
     (case query embed_fn similarity col [query_text] n_results of
        [] \<Rightarrow> Inl IndexError
      | r # _ \<Rightarrow> Inr (map doc_text r))"

definition short_titles :: "pystr list \<Rightarrow> pystr" where
  "short_titles documents = join (py ''\<newline>'') documents"

definition prompt_text1 :: pystr where
  \<open>prompt_text1 =
     py ''\<newline>'' @
     py ''Your main task is to generate 5 SUGGESTED_TITLES based for the PAPER_TITLE\<newline>'' @
     py ''\<newline>'' @
     py ''You should mimic a similar style and length as SHORT_TITLES but PLEASE DO NOT include titles from SHORT_TITLES in the SUGGESTED_TITLES, only generate appropriate and factual versions of the PAPER_TILE.\<newline>'' @
     py ''\<newline>'' @
     py ''PAPER_TITLE: ''\<close>

definition prompt_text2 :: pystr where
  \<open>prompt_text2 =
     py ''\<newline>'' @
     py ''\<newline>'' @
     py ''SHORT_TITLES: ''\<close>

definition prompt_text3 :: pystr where
  \<open>prompt_text3 =
     py ''\<newline>'' @
     py ''\<newline>'' @
     py ''SUGGESTED_TITLES:\<newline>''\<close>

text \<open>The f-string: its literal parts with the two values between them.\<close>

definition prompt_template :: "pystr \<Rightarrow> pystr \<Rightarrow> pystr" where
  "prompt_template user_query shorts = prompt_text1 @ user_query @ prompt_text2 @ shorts @ prompt_text3"

definition suggested_titles ::
  "'w endpoint \<Rightarrow> (pystr \<Rightarrow> 'v) \<Rightarrow> ('v \<Rightarrow> 'v \<Rightarrow> 's::linorder) \<Rightarrow> 'v collection \<Rightarrow> pystr \<Rightarrow> (pystr, 'w) io" where
  "suggested_titles create embed_fn similarity col user_query w =
     (case retriever_results embed_fn similarity col user_query 10 of
        Inl e \<Rightarrow> (Inl e, w)
      | Inr documents \<Rightarrow>
          (case rag_generate_response create (prompt_template user_query (short_titles documents)) w of
             (Inl e, w') \<Rightarrow> (Inl e, w')
           | (Inr responses, w') \<Rightarrow> (Inr (concat (map (\<lambda>r. [r]) responses)), w')))"

section \<open>Definitions used to state the properties\<close>

subsection \<open>The chat chain as the spec describes it\<close>

text \<open>
  The spec's section on the chat-chaining stages: a strict linear state machine over
  four stages, with a single string as chain state. Each transition composes the
  stage's prompt from the current state and the fixed inputs (user query and menu),
  sends it, and the output becomes the next state. The stages themselves are the
  notebook's stage functions.
\<close>

datatype stage = Reasoning | Extraction | Refinement | Verification

definition stage_step :: "'w endpoint \<Rightarrow> pystr \<Rightarrow> pystr \<Rightarrow> stage \<Rightarrow> pystr \<Rightarrow> (pystr, 'w) io" where
  "stage_step create user_query menu st state =
     (case st of
        Reasoning \<Rightarrow> reasoning_step create user_query menu
      | Extraction \<Rightarrow> extraction_step create state
      | Refinement \<Rightarrow> refinement_step create state
      | Verification \<Rightarrow> verification_step create user_query state menu)"

fun run_stages :: "'w endpoint \<Rightarrow> pystr \<Rightarrow> pystr \<Rightarrow> stage list \<Rightarrow> pystr \<Rightarrow> (pystr, 'w) io" where
  "run_stages create user_query menu [] state w = (Inr state, w)"
| "run_stages create user_query menu (st # sts) state w =
     (case stage_step create user_query menu st state w of
        (Inl e, w') \<Rightarrow> (Inl e, w')
      | (Inr out, w') \<Rightarrow> run_stages create user_query menu sts out w')"

definition chain :: "'w endpoint \<Rightarrow> pystr \<Rightarrow> pystr \<Rightarrow> pystr \<Rightarrow> (pystr, 'w) io" where
  "chain create user_query menu state =
     run_stages create user_query menu [Reasoning, Extraction, Refinement, Verification] state"

subsection \<open>Observing the endpoint\<close>

text \<open>An endpoint that also keeps the list of the requests it has received.\<close>

definition recording :: "'w endpoint \<Rightarrow> (request list \<times> 'w) endpoint" where
  "recording create req lw =
     (case lw of (log, w) \<Rightarrow> (case create req w of (r, w') \<Rightarrow> (r, (log @ [req], w'))))"

text \<open>
  Sample endpoints; the world counts the calls made. \<open>canned\<close> always answers with
  the same text, \<open>flaky k f\<close> answers the first \<open>k\<close> calls and raises \<open>f\<close> from
  then on.
\<close>

definition canned :: "pystr \<Rightarrow> nat endpoint" where
  "canned answer req n =
     (Inr \<lparr>choices = [\<lparr>message = \<lparr>role = py ''assistant'', content = answer\<rparr>\<rparr>]\<rparr>, Suc n)"

definition flaky :: "nat \<Rightarrow> api_failure \<Rightarrow> nat endpoint" where
  "flaky k f req n = (if n < k then canned (py ''ok'') req n else (Inl (APIError f), Suc n))"

subsection \<open>Text without braces\<close>

definition plain :: "pystr \<Rightarrow> bool" where
  "plain s = list_all (\<lambda>c. c \<noteq> cp (CHR ''{'') \<and> c \<noteq> cp (CHR ''}'')) s"

subsection \<open>The title prompt as a template\<close>

text \<open>
  The text of the notebook's f-string, read as a fixed template with the two
  replacement fields \<open>{user_query}\<close> and \<open>{short_titles}\<close>.
\<close>

definition title_template :: pystr where
  "title_template = prompt_text1 @ py ''{user_query}'' @ prompt_text2 @ py ''{short_titles}'' @ prompt_text3"

subsection \<open>The offsets drawn for a title\<close>

text \<open>The first \<open>n\<close> results of \<open>randint(1, 10000)\<close> from a generator state.\<close>

fun draws :: "nat \<Rightarrow> rng \<Rightarrow> int list" where
  "draws 0 g = []"
| "draws (Suc n) g = fst (randint 1 10000 g) # draws n (snd (randint 1 10000 g))"

text \<open>
  The sums for the titles of a batch, given the offsets drawn for the whole batch: each
  title takes as many offsets as it has characters, in order.
\<close>

fun title_sums :: "pystr list \<Rightarrow> int list \<Rightarrow> int list" where
  "title_sums [] offsets = []"
| "title_sums (title # titles) offsets =
     sum_list (map2 (\<lambda>c r. ord c + r) title offsets) # title_sums titles (drop (length title) offsets)"

subsection \<open>Observing the collection\<close>

text \<open>
  The batches the indexing loop cuts, and an upsert method that also keeps the list of
  the calls it has served, each with its four argument lists.
\<close>

definition batches :: "paper list \<Rightarrow> paper list list" where
  "batches papers =
     map (\<lambda>i. slice i (i + batch_size) papers) (range_step 0 (length papers) batch_size)"

record 'v upsert_call =
  call_ids :: "pystr list"
  call_metadatas :: "metadata list"
  call_documents :: "pystr list"
  call_embeddings :: "'v list"

definition recording_upsert ::
  "('v, 's) upsert_method \<Rightarrow> ('v, 'v upsert_call list \<times> 's) upsert_method" where
  "recording_upsert collection_upsert ids metadatas documents embeddings ls =
     (case ls of (log, s) \<Rightarrow>
        (case collection_upsert ids metadatas documents embeddings s of
           Inl e \<Rightarrow> Inl e
         | Inr s' \<Rightarrow>
             Inr (log @ [\<lparr>call_ids = ids, call_metadatas = metadatas, call_documents = documents,
                            call_embeddings = embeddings\<rparr>], s')))"

fun batch_calls :: "(pystr \<Rightarrow> 'v) \<Rightarrow> paper list list \<Rightarrow> rng \<Rightarrow> 'v upsert_call list" where
  "batch_calls encode [] g = []"
| "batch_calls encode (b # bs) g =
     (case batch_ids b g of
        (Inl e, g') \<Rightarrow> []
      | (Inr ids, g') \<Rightarrow>
          \<lparr>call_ids = ids, call_metadatas = batch_metadata b, call_documents = batch_titles b,
            call_embeddings = map encode (batch_titles b)\<rparr> # batch_calls encode bs g')"

text \<open>
  Sample rows of the file and of the frame, and the document the indexing cell stores
  for a row without title text.
\<close>

definition sample_row :: "pystr \<Rightarrow> pystr \<Rightarrow> csv_row" where
  "sample_row title description =
     \<lparr>raw_Title = title, raw_Description = description,
      raw_PaperURL = py ''https://arxiv.org/abs/0000.00000'', raw_TweetURL = [], raw_Abstract = []\<rparr>"

definition sample_paper :: "pystr \<Rightarrow> paper" where
  "sample_paper title =
     \<lparr>Title = Some title, Description = Some (py ''a description''),
      PaperURL = Some (py ''https://arxiv.org/abs/0000.00000''), TweetURL = None, Abstract = None\<rparr>"

definition no_title_document :: "(pystr \<Rightarrow> 'v) \<Rightarrow> paper \<Rightarrow> 'v document" where
  "no_title_document encode paper =
     \<lparr>doc_id = py ''0'', doc_text = py ''No Title'', doc_embedding = encode (py ''No Title''),
      doc_metadata = \<lparr>url = PaperURL paper, abstract = Abstract paper\<rparr>\<rparr>"

text \<open>The documents that \<open>index_batch\<close> hands to \<open>upsert\<close> for a batch with the ids \<open>ids\<close>.\<close>

definition batch_documents :: "(pystr \<Rightarrow> 'v) \<Rightarrow> paper list \<Rightarrow> pystr list \<Rightarrow> 'v document list" where
  "batch_documents encode batch ids =
     documents_of ids (batch_metadata batch) (batch_titles batch) (map encode (batch_titles batch))"

section \<open>Properties of the menu chat pipeline\<close>

subsection \<open>Literals\<close>

lemma cp_eq_iff [simp]: "cp a = cp b \<longleftrightarrow> a = b"
  by (simp add: cp_def)

lemma inj_cp: "inj cp"
  by (simp add: inj_on_def)

lemma py_eq_iff [simp]: "py a = py b \<longleftrightarrow> a = b"
  by (simp add: py_def inj_map_eq_map [OF inj_cp])

lemma py_simps:
  "py [] = []" "py (c # s) = cp c # py s" "py (a @ b) = py a @ py b"
  by (simp_all add: py_def)

lemma plain_append: "plain (a @ b) \<longleftrightarrow> plain a \<and> plain b"
  by (simp add: plain_def)

lemma py_eq_Nil [simp]: "py s = [] \<longleftrightarrow> s = []"
  by (simp add: py_def)

lemma plain_Cons: "plain (c # s) \<longleftrightarrow> c \<noteq> cp (CHR ''{'') \<and> c \<noteq> cp (CHR ''}'') \<and> plain s"
  by (simp add: plain_def)

lemma plain_py: "plain (py s) \<longleftrightarrow> list_all (\<lambda>c. c \<noteq> CHR ''{'' \<and> c \<noteq> CHR ''}'') s"
  by (induction s) (simp_all add: plain_def py_simps)

lemma positional_py: "positional (py s) \<longleftrightarrow> list_all (\<lambda>c. c \<in> set ''0123456789'') s"
  by (induction s) (auto simp: positional_def py_simps)

subsection \<open>Formatting the stage templates\<close>

text \<open>
  Text without braces is copied, a replacement field of a known keyword is replaced by
  the value, so each stage template formats to its literal parts with the values
  between them; none of the four calls of \<open>format\<close> raises.
\<close>

lemma format_from_plain:
  "plain s \<Longrightarrow> format_from kw None (s @ t) = map_sum id ((@) s) (format_from kw None t)"
proof (induction s)
  case Nil
  show ?case by (simp add: sum.map_ident map_sum.identity)
next
  case (Cons c s)
  then have "c \<noteq> cp (CHR ''{'')" "c \<noteq> cp (CHR ''}'')" "plain s" by (simp_all add: plain_def)
  with Cons.IH show ?case by (simp add: sum.map_comp comp_def)
qed

lemma format_from_name:
  "plain name \<Longrightarrow>
   format_from kw (Some acc) (name @ cp (CHR ''}'') # t) = format_from kw (Some (acc @ name)) (cp (CHR ''}'') # t)"
proof (induction name arbitrary: acc)
  case Nil
  show ?case by simp
next
  case (Cons c name)
  then have "c \<noteq> cp (CHR ''}'')" "plain name" by (simp_all add: plain_def)
  with Cons.IH [of "acc @ [c]"] show ?case by simp
qed

lemma format_from_field:
  assumes "plain name" "\<not> positional name" "kw name = Some v"
  shows "format_from kw None (cp (CHR ''{'') # name @ cp (CHR ''}'') # t) = map_sum id ((@) v) (format_from kw None t)"
proof -
  from assms(2) obtain c cs where name: "name = c # cs"
    by (cases name) (simp_all add: positional_def)
  with assms(1) have c: "c \<noteq> cp (CHR ''{'')" by (simp add: plain_def)
  have "format_from kw None (cp (CHR ''{'') # name @ cp (CHR ''}'') # t) = format_from kw (Some []) (name @ cp (CHR ''}'') # t)"
    using c by (simp add: name)
  also have "\<dots> = format_from kw (Some name) (cp (CHR ''}'') # t)"
    using format_from_name [OF assms(1), of kw "[]" t] by simp
  also have "\<dots> = map_sum id ((@) v) (format_from kw None t)"
    using assms(2,3) by simp
  finally show ?thesis .
qed

lemma format_from_part:
  assumes "plain a" "plain name" "\<not> positional name" "kw name = Some v"
  shows "format_from kw None (a @ cp (CHR ''{'') # name @ cp (CHR ''}'') # t) =
           map_sum id ((@) (a @ v)) (format_from kw None t)"
proof -
  have "format_from kw None (a @ cp (CHR ''{'') # name @ cp (CHR ''}'') # t) =
          map_sum id ((@) a) (format_from kw None (cp (CHR ''{'') # name @ cp (CHR ''}'') # t))"
    using assms(1) by (rule format_from_plain)
  also have "format_from kw None (cp (CHR ''{'') # name @ cp (CHR ''}'') # t) =
          map_sum id ((@) v) (format_from kw None t)"
    using assms(2,3,4) by (rule format_from_field)
  finally show ?thesis by (cases "format_from kw None t") simp_all
qed

lemma format_from_end: "plain s \<Longrightarrow> format_from kw None s = Inr s"
  using format_from_plain [of s kw "[]"] by simp

lemma plain_texts:
  "plain reasoning_text1" "plain reasoning_text2" "plain reasoning_text3"
  "plain extraction_text1" "plain extraction_text2"
  "plain refinement_text1" "plain refinement_text2"
  "plain verification_text1" "plain verification_text2" "plain verification_text3"
  "plain verification_text4"
  by (simp_all add: plain_append plain_Cons plain_py reasoning_text1_def reasoning_text2_def reasoning_text3_def
      extraction_text1_def extraction_text2_def refinement_text1_def refinement_text2_def
      verification_text1_def verification_text2_def verification_text3_def verification_text4_def)

lemma reasoning_prompt:
  "format reasoning_template [(py ''request'', q), (py ''menu_items'', m)] =
     Inr (reasoning_text1 @ q @ reasoning_text2 @ m @ reasoning_text3)"
proof -
  let ?kw = "map_of [(py ''request'', q), (py ''menu_items'', m)]"
  have 1: "format_from ?kw None (reasoning_text1 @ cp (CHR ''{'') # (py ''request'') @ cp (CHR ''}'') # t) =
      map_sum id ((@) (reasoning_text1 @ q)) (format_from ?kw None t)" for t
    by (rule format_from_part [OF plain_texts(1)]) (simp_all add: plain_py positional_py)
  have 2: "format_from ?kw None (reasoning_text2 @ cp (CHR ''{'') # (py ''menu_items'') @ cp (CHR ''}'') # t) =
      map_sum id ((@) (reasoning_text2 @ m)) (format_from ?kw None t)" for t
    by (rule format_from_part [OF plain_texts(2)]) (simp_all add: plain_py positional_py)
  have "format_from ?kw None reasoning_template =
      format_from ?kw None (reasoning_text1 @ cp (CHR ''{'') # (py ''request'') @ cp (CHR ''}'') #
        (reasoning_text2 @ cp (CHR ''{'') # (py ''menu_items'') @ cp (CHR ''}'') # reasoning_text3))"
    by (simp add: reasoning_template_def py_simps)
  also have "\<dots> = Inr (reasoning_text1 @ q @ reasoning_text2 @ m @ reasoning_text3)"
    by (simp only: 1 2 format_from_end [OF plain_texts(3)] map_sum.simps append_assoc)
  finally show ?thesis by (simp only: format_def)
qed

lemma extraction_prompt:
  "format extraction_template [(py ''reasoning'', r)] = Inr (extraction_text1 @ r @ extraction_text2)"
proof -
  let ?kw = "map_of [(py ''reasoning'', r)]"
  have 1: "format_from ?kw None (extraction_text1 @ cp (CHR ''{'') # (py ''reasoning'') @ cp (CHR ''}'') # t) =
      map_sum id ((@) (extraction_text1 @ r)) (format_from ?kw None t)" for t
    by (rule format_from_part [OF plain_texts(4)]) (simp_all add: plain_py positional_py)
  have "format_from ?kw None extraction_template =
      format_from ?kw None (extraction_text1 @ cp (CHR ''{'') # (py ''reasoning'') @ cp (CHR ''}'') # extraction_text2)"
    by (simp add: extraction_template_def py_simps)
  also have "\<dots> = Inr (extraction_text1 @ r @ extraction_text2)"
    by (simp only: 1 format_from_end [OF plain_texts(5)] map_sum.simps append_assoc)
  finally show ?thesis by (simp only: format_def)
qed

lemma refinement_prompt:
  "format refinement_template [(py ''final_response'', r)] = Inr (refinement_text1 @ r @ refinement_text2)"
proof -
  let ?kw = "map_of [(py ''final_response'', r)]"
  have 1: "format_from ?kw None (refinement_text1 @ cp (CHR ''{'') # (py ''final_response'') @ cp (CHR ''}'') # t) =
      map_sum id ((@) (refinement_text1 @ r)) (format_from ?kw None t)" for t
    by (rule format_from_part [OF plain_texts(6)]) (simp_all add: plain_py positional_py)
  have "format_from ?kw None refinement_template =
      format_from ?kw None (refinement_text1 @ cp (CHR ''{'') # (py ''final_response'') @ cp (CHR ''}'') # refinement_text2)"
    by (simp add: refinement_template_def py_simps)
  also have "\<dots> = Inr (refinement_text1 @ r @ refinement_text2)"
    by (simp only: 1 format_from_end [OF plain_texts(7)] map_sum.simps append_assoc)
  finally show ?thesis by (simp only: format_def)
qed

lemma verification_prompt:
  "format verification_template
     [(py ''user_question'', q), (py ''refined_response'', r), (py ''menu_items'', m)] =
   Inr (verification_text1 @ q @ verification_text2 @ r @ verification_text3 @ m @ verification_text4)"
proof -
  let ?kw = "map_of [(py ''user_question'', q), (py ''refined_response'', r), (py ''menu_items'', m)]"
  have 1: "format_from ?kw None (verification_text1 @ cp (CHR ''{'') # (py ''user_question'') @ cp (CHR ''}'') # t) =
      map_sum id ((@) (verification_text1 @ q)) (format_from ?kw None t)" for t
    by (rule format_from_part [OF plain_texts(8)]) (simp_all add: plain_py positional_py)
  have 2: "format_from ?kw None (verification_text2 @ cp (CHR ''{'') # (py ''refined_response'') @ cp (CHR ''}'') # t) =
      map_sum id ((@) (verification_text2 @ r)) (format_from ?kw None t)" for t
    by (rule format_from_part [OF plain_texts(9)]) (simp_all add: plain_py positional_py)
  have 3: "format_from ?kw None (verification_text3 @ cp (CHR ''{'') # (py ''menu_items'') @ cp (CHR ''}'') # t) =
      map_sum id ((@) (verification_text3 @ m)) (format_from ?kw None t)" for t
    by (rule format_from_part [OF plain_texts(10)]) (simp_all add: plain_py positional_py)
  have "format_from ?kw None verification_template =
      format_from ?kw None (verification_text1 @ cp (CHR ''{'') # (py ''user_question'') @ cp (CHR ''}'') #
        (verification_text2 @ cp (CHR ''{'') # (py ''refined_response'') @ cp (CHR ''}'') #
          (verification_text3 @ cp (CHR ''{'') # (py ''menu_items'') @ cp (CHR ''}'') # verification_text4)))"
    by (simp add: verification_template_def py_simps)
  also have "\<dots> =
      Inr (verification_text1 @ q @ verification_text2 @ r @ verification_text3 @ m @ verification_text4)"
    by (simp only: 1 2 3 format_from_end [OF plain_texts(11)] map_sum.simps append_assoc)
  finally show ?thesis by (simp only: format_def)
qed

subsection \<open>The stages and the chain\<close>

lemma reasoning_step_call:
  "reasoning_step create q m w =
     generate_response create (reasoning_text1 @ q @ reasoning_text2 @ m @ reasoning_text3) w"
  by (simp add: reasoning_step_def reasoning_prompt)

lemma extraction_step_call:
  "extraction_step create r w = generate_response create (extraction_text1 @ r @ extraction_text2) w"
  by (simp add: extraction_step_def extraction_prompt)

lemma refinement_step_call:
  "refinement_step create r w = generate_response create (refinement_text1 @ r @ refinement_text2) w"
  by (simp add: refinement_step_def refinement_prompt)

lemma verification_step_call:
  "verification_step create q r m w =
     generate_response create
       (verification_text1 @ q @ verification_text2 @ r @ verification_text3 @ m @ verification_text4) w"
  by (simp add: verification_step_def verification_prompt)

lemma chain_unfold:
  "chain create q m state w =
     (case reasoning_step create q m w of
        (Inl e, w1) \<Rightarrow> (Inl e, w1)
      | (Inr reasoning, w1) \<Rightarrow>
     (case extraction_step create reasoning w1 of
        (Inl e, w2) \<Rightarrow> (Inl e, w2)
      | (Inr extraction, w2) \<Rightarrow>
     (case refinement_step create extraction w2 of
        (Inl e, w3) \<Rightarrow> (Inl e, w3)
      | (Inr refinement, w3) \<Rightarrow>
     (case verification_step create q refinement m w3 of
        (Inl e, w4) \<Rightarrow> (Inl e, w4)
      | (Inr verification, w4) \<Rightarrow> (Inr verification, w4)))))"
  by (simp add: chain_def stage_step_def split: prod.splits sum.splits)

lemma generate_response_canned: "generate_response (canned a) p n = (Inr a, Suc n)"
  by (simp add: generate_response_def canned_def)

lemma chain_canned: "chain (canned a) q m state n = (Inr a, n + 4)"
  by (simp add: chain_unfold reasoning_step_call extraction_step_call refinement_step_call
      verification_step_call generate_response_canned)

lemma chatbot_canned: "generate_food_chatbot (canned a) q m n = (Inr (Markdown a), n + 4)"
  by (simp add: generate_food_chatbot_def reasoning_step_call extraction_step_call
      refinement_step_call verification_step_call generate_response_canned)

text \<open>
  C1 (as amended). For every endpoint, user query, menu text and world, the full chat
  chain \<open>generate_food_chatbot\<close> does exactly what the spec's linear state machine does:
  reasoning, extraction, refinement and verification in that order, each stage
  consuming the previous stage's output (verification also the user query and the
  menu), stopping at the first exception. The starting chain state is irrelevant, so
  nothing but the arguments and the endpoint's world enters. The value handed back is
  the verification output wrapped in the display object \<open>Markdown\<close>, not the bare
  string.
\<close>

theorem generate_food_chatbot_is_chain:
  "generate_food_chatbot create user_query menu w =
     (case chain create user_query menu state w of
        (Inl e, w') \<Rightarrow> (Inl e, w')
      | (Inr verification, w') \<Rightarrow> (Inr (Markdown verification), w'))"
  unfolding chain_unfold generate_food_chatbot_def
  by (simp split: prod.splits sum.splits)

theorem generate_food_chatbot_is_chain_witness:
  "generate_food_chatbot (canned (py ''$6.99'')) (py ''What is the price of the cheeseburger?'') menu_items 0 =
     (Inr (Markdown (py ''$6.99'')), 4)"
  using generate_food_chatbot_is_chain
    [of "canned (py ''$6.99'')" "(py ''What is the price of the cheeseburger?'')" menu_items 0 "[]"]
  by (simp add: chain_canned)

text \<open>
  C1 as stated has the caller receive the verification stage's output itself. With an
  endpoint that always answers \<open>ok\<close> the chain state ends as the string \<open>ok\<close>, and
  \<open>generate_food_chatbot\<close> returns \<open>Markdown ok\<close>, which is not that string.
\<close>

theorem generate_food_chatbot_returns_str_counterexample:
  "generate_food_chatbot (canned (py ''ok'')) (py ''hi'') (py ''menu'') 0 \<noteq>
     (case chain (canned (py ''ok'')) (py ''hi'') (py ''menu'') [] 0 of
        (Inl e, w') \<Rightarrow> (Inl e, w')
      | (Inr verification, w') \<Rightarrow> (Inr (Str verification), w'))"
  by (simp add: chain_canned chatbot_canned)

subsection \<open>The completion client\<close>

lemma rag_generate_response_canned: "rag_generate_response (canned a) p n = (Inr a, Suc n)"
  by (simp add: rag_generate_response_def canned_def)

text \<open>
  C7. For every prompt, each notebook's \<open>generate_response\<close> makes one call of the
  endpoint: the request list of a recording endpoint grows by exactly one request, whose
  message list is the single user message holding the prompt and whose model identifier
  is fixed (\<open>gpt-4o\<close> in the chat notebook, \<open>gpt-4o-mini\<close> in the RAG notebook). When
  the provider answers with at least one choice, the result is the text content of the
  first choice.
\<close>

theorem generate_response_single_turn:
  "snd (generate_response (recording create) prompt (log, w)) =
     (log @ [\<lparr>model = py ''gpt-4o'', messages = [\<lparr>role = py ''user'', content = prompt\<rparr>]\<rparr>],
      snd (create \<lparr>model = py ''gpt-4o'', messages = [\<lparr>role = py ''user'', content = prompt\<rparr>]\<rparr> w))
   \<and> snd (rag_generate_response (recording create) prompt (log, w)) =
     (log @ [\<lparr>model = py ''gpt-4o-mini'', messages = [\<lparr>role = py ''user'', content = prompt\<rparr>]\<rparr>],
      snd (create \<lparr>model = py ''gpt-4o-mini'', messages = [\<lparr>role = py ''user'', content = prompt\<rparr>]\<rparr> w))
   \<and> (create \<lparr>model = py ''gpt-4o'', messages = [\<lparr>role = py ''user'', content = prompt\<rparr>]\<rparr> w = (Inr resp, w')
        \<and> choices resp = c # cs
      \<longrightarrow> generate_response create prompt w = (Inr (content (message c)), w'))
   \<and> (create \<lparr>model = py ''gpt-4o-mini'', messages = [\<lparr>role = py ''user'', content = prompt\<rparr>]\<rparr> w = (Inr resp, w')
        \<and> choices resp = c # cs
      \<longrightarrow> rag_generate_response create prompt w = (Inr (content (message c)), w'))"
  by (simp add: generate_response_def rag_generate_response_def recording_def
      split: prod.splits sum.splits list.splits)

theorem generate_response_single_turn_witness:
  "snd (generate_response (recording (canned (py ''Hello''))) (py ''Hi'') ([], 0)) =
     ([\<lparr>model = py ''gpt-4o'', messages = [\<lparr>role = py ''user'', content = (py ''Hi'')\<rparr>]\<rparr>], 1)
   \<and> snd (rag_generate_response (recording (canned (py ''Hello''))) (py ''Hi'') ([], 0)) =
     ([\<lparr>model = py ''gpt-4o-mini'', messages = [\<lparr>role = py ''user'', content = (py ''Hi'')\<rparr>]\<rparr>], 1)
   \<and> generate_response (canned (py ''Hello'')) (py ''Hi'') 0 = (Inr (py ''Hello''), 1)
   \<and> rag_generate_response (canned (py ''Hello'')) (py ''Hi'') 0 = (Inr (py ''Hello''), 1)"
  using generate_response_single_turn
    [of "canned (py ''Hello'')" "(py ''Hi'')" "[]" 0
        "\<lparr>choices = [\<lparr>message = \<lparr>role = py ''assistant'', content = (py ''Hello'')\<rparr>\<rparr>]\<rparr>" 1
        "\<lparr>message = \<lparr>role = py ''assistant'', content = (py ''Hello'')\<rparr>\<rparr>" "[]"]
  by (simp add: canned_def)

subsection \<open>Failures of the completion call\<close>

lemma generate_response_flaky:
  "generate_response (flaky k f) p n =
     (if n < k then (Inr (py ''ok''), Suc n) else (Inl (APIError f), Suc n))"
  by (simp add: generate_response_def flaky_def canned_def)

lemma rag_generate_response_flaky:
  "rag_generate_response (flaky k f) p n =
     (if n < k then (Inr (py ''ok''), Suc n) else (Inl (APIError f), Suc n))"
  by (simp add: rag_generate_response_def flaky_def canned_def)

lemma generate_response_raises:
  "create \<lparr>model = py ''gpt-4o'', messages = [\<lparr>role = py ''user'', content = prompt\<rparr>]\<rparr> w = (Inl e, w')
   \<Longrightarrow> generate_response create prompt w = (Inl e, w')"
  by (simp add: generate_response_def)

lemma rag_generate_response_raises:
  "create \<lparr>model = py ''gpt-4o-mini'', messages = [\<lparr>role = py ''user'', content = prompt\<rparr>]\<rparr> w = (Inl e, w')
   \<Longrightarrow> rag_generate_response create prompt w = (Inl e, w')"
  by (simp add: rag_generate_response_def)

text \<open>
  C9. An exception raised by the hosted completion call (what the spec calls a
  CompletionError; any network, authentication or rate-limit failure of the provider)
  leaves \<open>generate_response\<close> as the same exception, after exactly one request (a
  recording endpoint has received one request, so nothing is retried). Every stage of the
  chat chain is a single \<open>generate_response\<close> call on its prompt, and a stage that raises
  ends \<open>generate_food_chatbot\<close> with that exception and with the world as the failed
  call left it (no later stage runs); the same holds for the title-suggestion cell.
\<close>

theorem completion_failure_propagates:
  "(create \<lparr>model = py ''gpt-4o'', messages = [\<lparr>role = py ''user'', content = prompt\<rparr>]\<rparr> w = (Inl e, w')
      \<longrightarrow> generate_response create prompt w = (Inl e, w')
        \<and> generate_response (recording create) prompt (log, w) =
            (Inl e, (log @ [\<lparr>model = py ''gpt-4o'', messages = [\<lparr>role = py ''user'', content = prompt\<rparr>]\<rparr>], w')))
   \<and> (create \<lparr>model = py ''gpt-4o-mini'', messages = [\<lparr>role = py ''user'', content = prompt\<rparr>]\<rparr> w = (Inl e, w')
      \<longrightarrow> rag_generate_response create prompt w = (Inl e, w')
        \<and> rag_generate_response (recording create) prompt (log, w) =
            (Inl e, (log @ [\<lparr>model = py ''gpt-4o-mini'', messages = [\<lparr>role = py ''user'', content = prompt\<rparr>]\<rparr>], w')))
   \<and> reasoning_step create q m w =
        generate_response create (reasoning_text1 @ q @ reasoning_text2 @ m @ reasoning_text3) w
   \<and> extraction_step create r w = generate_response create (extraction_text1 @ r @ extraction_text2) w
   \<and> refinement_step create x w = generate_response create (refinement_text1 @ x @ refinement_text2) w
   \<and> verification_step create q y m w =
        generate_response create
          (verification_text1 @ q @ verification_text2 @ y @ verification_text3 @ m @ verification_text4) w
   \<and> (reasoning_step create q m w = (Inl e, w1)
      \<longrightarrow> generate_food_chatbot create q m w = (Inl e, w1))
   \<and> (reasoning_step create q m w = (Inr r, w1) \<and> extraction_step create r w1 = (Inl e, w2)
      \<longrightarrow> generate_food_chatbot create q m w = (Inl e, w2))
   \<and> (reasoning_step create q m w = (Inr r, w1) \<and> extraction_step create r w1 = (Inr x, w2)
        \<and> refinement_step create x w2 = (Inl e, w3)
      \<longrightarrow> generate_food_chatbot create q m w = (Inl e, w3))
   \<and> (reasoning_step create q m w = (Inr r, w1) \<and> extraction_step create r w1 = (Inr x, w2)
        \<and> refinement_step create x w2 = (Inr y, w3) \<and> verification_step create q y m w3 = (Inl e, w4)
      \<longrightarrow> generate_food_chatbot create q m w = (Inl e, w4))
   \<and> (retriever_results embed_fn similarity col q 10 = Inr documents
        \<and> rag_generate_response create (prompt_template q (short_titles documents)) w = (Inl e, w')
      \<longrightarrow> suggested_titles create embed_fn similarity col q w = (Inl e, w'))"
proof -
  have calls: "reasoning_step create q m w =
        generate_response create (reasoning_text1 @ q @ reasoning_text2 @ m @ reasoning_text3) w"
    "extraction_step create r w = generate_response create (extraction_text1 @ r @ extraction_text2) w"
    "refinement_step create x w = generate_response create (refinement_text1 @ x @ refinement_text2) w"
    "verification_step create q y m w =
        generate_response create
          (verification_text1 @ q @ verification_text2 @ y @ verification_text3 @ m @ verification_text4) w"
    by (rule reasoning_step_call extraction_step_call refinement_step_call verification_step_call)+
  have chat: "create \<lparr>model = py ''gpt-4o'', messages = [\<lparr>role = py ''user'', content = prompt\<rparr>]\<rparr> w = (Inl e, w')
      \<longrightarrow> generate_response create prompt w = (Inl e, w')
        \<and> generate_response (recording create) prompt (log, w) =
            (Inl e, (log @ [\<lparr>model = py ''gpt-4o'', messages = [\<lparr>role = py ''user'', content = prompt\<rparr>]\<rparr>], w'))"
    by (simp add: generate_response_def recording_def)
  have rag: "create \<lparr>model = py ''gpt-4o-mini'', messages = [\<lparr>role = py ''user'', content = prompt\<rparr>]\<rparr> w = (Inl e, w')
      \<longrightarrow> rag_generate_response create prompt w = (Inl e, w')
        \<and> rag_generate_response (recording create) prompt (log, w) =
            (Inl e, (log @ [\<lparr>model = py ''gpt-4o-mini'', messages = [\<lparr>role = py ''user'', content = prompt\<rparr>]\<rparr>], w'))"
    by (simp add: rag_generate_response_def recording_def)
  have chain1: "reasoning_step create q m w = (Inl e, w1)
      \<longrightarrow> generate_food_chatbot create q m w = (Inl e, w1)"
    by (simp add: generate_food_chatbot_def)
  have chain2: "reasoning_step create q m w = (Inr r, w1) \<and> extraction_step create r w1 = (Inl e, w2)
      \<longrightarrow> generate_food_chatbot create q m w = (Inl e, w2)"
    by (simp add: generate_food_chatbot_def)
  have chain3: "reasoning_step create q m w = (Inr r, w1) \<and> extraction_step create r w1 = (Inr x, w2)
        \<and> refinement_step create x w2 = (Inl e, w3)
      \<longrightarrow> generate_food_chatbot create q m w = (Inl e, w3)"
    by (simp add: generate_food_chatbot_def)
  have chain4: "reasoning_step create q m w = (Inr r, w1) \<and> extraction_step create r w1 = (Inr x, w2)
        \<and> refinement_step create x w2 = (Inr y, w3) \<and> verification_step create q y m w3 = (Inl e, w4)
      \<longrightarrow> generate_food_chatbot create q m w = (Inl e, w4)"
    by (simp add: generate_food_chatbot_def)
  have titles: "retriever_results embed_fn similarity col q 10 = Inr documents
        \<and> rag_generate_response create (prompt_template q (short_titles documents)) w = (Inl e, w')
      \<longrightarrow> suggested_titles create embed_fn similarity col q w = (Inl e, w')"
    by (simp add: suggested_titles_def)
  from chat rag calls chain1 chain2 chain3 chain4 titles show ?thesis
    by (intro conjI)
qed


lemma retriever_results_empty: "retriever_results embed_fn similarity [] q k = Inr []"
  by (simp add: retriever_results_def query_def ranked_def)

theorem completion_failure_propagates_witness:
  "generate_response (flaky 0 RateLimitError) (py ''Hi'') 0 = (Inl (APIError RateLimitError), 1)
   \<and> generate_response (recording (flaky 0 RateLimitError)) (py ''Hi'') ([], 0) =
       (Inl (APIError RateLimitError),
        ([\<lparr>model = py ''gpt-4o'', messages = [\<lparr>role = py ''user'', content = (py ''Hi'')\<rparr>]\<rparr>], 1))
   \<and> rag_generate_response (flaky 0 RateLimitError) (py ''Hi'') 0 = (Inl (APIError RateLimitError), 1)
   \<and> generate_food_chatbot (flaky 0 RateLimitError) (py ''q'') (py ''m'') 0 = (Inl (APIError RateLimitError), 1)
   \<and> generate_food_chatbot (flaky 1 AuthenticationError) (py ''q'') (py ''m'') 0 = (Inl (APIError AuthenticationError), 2)
   \<and> generate_food_chatbot (flaky 2 APIConnectionError) (py ''q'') (py ''m'') 0 = (Inl (APIError APIConnectionError), 3)
   \<and> generate_food_chatbot (flaky 3 RateLimitError) (py ''q'') (py ''m'') 0 = (Inl (APIError RateLimitError), 4)
   \<and> suggested_titles (flaky 0 RateLimitError) length (\<lambda>a b. a + b) [] (py ''q'') 0 =
       (Inl (APIError RateLimitError), 1)"
proof -
  note steps = reasoning_step_call extraction_step_call refinement_step_call verification_step_call
    generate_response_flaky rag_generate_response_flaky retriever_results_empty
  have a: "generate_response (flaky 0 RateLimitError) (py ''Hi'') 0 = (Inl (APIError RateLimitError), 1)
     \<and> generate_response (recording (flaky 0 RateLimitError)) (py ''Hi'') ([], 0) =
       (Inl (APIError RateLimitError),
        ([\<lparr>model = py ''gpt-4o'', messages = [\<lparr>role = py ''user'', content = (py ''Hi'')\<rparr>]\<rparr>], 1))
     \<and> rag_generate_response (flaky 0 RateLimitError) (py ''Hi'') 0 = (Inl (APIError RateLimitError), 1)
     \<and> generate_food_chatbot (flaky 0 RateLimitError) (py ''q'') (py ''m'') 0 = (Inl (APIError RateLimitError), 1)
     \<and> suggested_titles (flaky 0 RateLimitError) length (\<lambda>a b. a + b) [] (py ''q'') 0 =
       (Inl (APIError RateLimitError), 1)"
    using completion_failure_propagates
      [where create = "flaky 0 RateLimitError" and prompt = "(py ''Hi'')" and w = 0
         and e = "APIError RateLimitError" and w' = 1 and log = "[]" and q = "(py ''q'')" and m = "(py ''m'')"
         and r = "(py ''ok'')" and x = "(py ''ok'')" and y = "(py ''ok'')" and ?w1.0 = 1 and ?w2.0 = 2 and ?w3.0 = 3
         and ?w4.0 = 4 and embed_fn = length and similarity = "\<lambda>a b. a + b" and col = "[]"
         and documents = "[]"]
    by (simp add: steps flaky_def)
  have b: "generate_food_chatbot (flaky 1 AuthenticationError) (py ''q'') (py ''m'') 0 =
      (Inl (APIError AuthenticationError), 2)"
    using completion_failure_propagates
      [where create = "flaky 1 AuthenticationError" and prompt = "(py ''Hi'')" and w = 0
         and e = "APIError AuthenticationError" and w' = 1 and log = "[]" and q = "(py ''q'')" and m = "(py ''m'')"
         and r = "(py ''ok'')" and x = "(py ''ok'')" and y = "(py ''ok'')" and ?w1.0 = 1 and ?w2.0 = 2 and ?w3.0 = 3
         and ?w4.0 = 4 and embed_fn = length and similarity = "\<lambda>a b. a + b" and col = "[]"
         and documents = "[]"]
    by (simp add: steps)
  have c: "generate_food_chatbot (flaky 2 APIConnectionError) (py ''q'') (py ''m'') 0 =
      (Inl (APIError APIConnectionError), 3)"
    using completion_failure_propagates
      [where create = "flaky 2 APIConnectionError" and prompt = "(py ''Hi'')" and w = 0
         and e = "APIError APIConnectionError" and w' = 1 and log = "[]" and q = "(py ''q'')" and m = "(py ''m'')"
         and r = "(py ''ok'')" and x = "(py ''ok'')" and y = "(py ''ok'')" and ?w1.0 = 1 and ?w2.0 = 2 and ?w3.0 = 3
         and ?w4.0 = 4 and embed_fn = length and similarity = "\<lambda>a b. a + b" and col = "[]"
         and documents = "[]"]
    by (simp add: steps)
  have d: "generate_food_chatbot (flaky 3 RateLimitError) (py ''q'') (py ''m'') 0 =
      (Inl (APIError RateLimitError), 4)"
    using completion_failure_propagates
      [where create = "flaky 3 RateLimitError" and prompt = "(py ''Hi'')" and w = 0
         and e = "APIError RateLimitError" and w' = 1 and log = "[]" and q = "(py ''q'')" and m = "(py ''m'')"
         and r = "(py ''ok'')" and x = "(py ''ok'')" and y = "(py ''ok'')" and ?w1.0 = 1 and ?w2.0 = 2 and ?w3.0 = 3
         and ?w4.0 = 4 and embed_fn = length and similarity = "\<lambda>a b. a + b" and col = "[]"
         and documents = "[]"]
    by (simp add: steps)
  from a b c d show ?thesis by simp
qed

section \<open>Properties of the title-suggestion pipeline\<close>

subsection \<open>The dataset loader\<close>

lemma ml_papers_filter:
  "ml_papers rows =
     read_csv (filter (\<lambda>r. raw_Title r \<notin> set na_values \<and> raw_Description r \<notin> set na_values) rows)"
  by (simp add: ml_papers_def dropna_def read_csv_def read_cell_def filter_map comp_def
      cong: conj_cong)

lemma empty_field_is_missing: "[] \<in> set na_values"
  by (simp add: na_values_def)

text \<open>
  C2 (as amended). The dataset loader keeps a row of the file exactly when neither its
  title nor its description is read as a missing value, that is, when neither is empty
  or one of the default markers of \<open>read_csv\<close> (\<open>NA\<close>, \<open>N/A\<close>, \<open>NULL\<close>, \<open>null\<close>, \<open>NaN\<close>,
  \<open>nan\<close>, \<open>None\<close>, \<open>n/a\<close> and the others of \<open>na_values\<close>); the rows kept are in the order
  of the file. The number of rows kept is the number of input rows minus the number of
  rows dropped. A row with an empty title or description is dropped, and no row kept
  has a missing or empty title or description.
\<close>

theorem ml_papers_retains:
  "ml_papers rows =
     read_csv (filter (\<lambda>r. raw_Title r \<notin> set na_values \<and> raw_Description r \<notin> set na_values) rows)
   \<and> length (ml_papers rows) =
       length rows
         - length (filter (\<lambda>r. raw_Title r \<in> set na_values \<or> raw_Description r \<in> set na_values) rows)
   \<and> (raw_Title r = [] \<or> raw_Description r = [] \<longrightarrow> ml_papers [r] = [])
   \<and> list_all (\<lambda>p. Title p \<noteq> None \<and> Description p \<noteq> None
                   \<and> Title p \<noteq> Some [] \<and> Description p \<noteq> Some []) (ml_papers rows)"
proof -
  let ?keep = "\<lambda>r. raw_Title r \<notin> set na_values \<and> raw_Description r \<notin> set na_values"
  have "length (filter ?keep rows) + length (filter (\<lambda>r. \<not> ?keep r) rows) = length rows"
    by (rule sum_length_filter_compl)
  moreover have "(\<lambda>r. \<not> ?keep r) =
      (\<lambda>r. raw_Title r \<in> set na_values \<or> raw_Description r \<in> set na_values)"
    by auto
  ultimately have count: "length (ml_papers rows) =
      length rows
        - length (filter (\<lambda>r. raw_Title r \<in> set na_values \<or> raw_Description r \<in> set na_values) rows)"
    by (simp add: ml_papers_filter read_csv_def)
  have empty: "raw_Title r = [] \<or> raw_Description r = [] \<longrightarrow> ml_papers [r] = []"
    using empty_field_is_missing by (auto simp: ml_papers_filter read_csv_def)
  have kept: "list_all (\<lambda>p. Title p \<noteq> None \<and> Description p \<noteq> None
                   \<and> Title p \<noteq> Some [] \<and> Description p \<noteq> Some []) (ml_papers rows)"
    using empty_field_is_missing
    by (auto simp: ml_papers_filter read_csv_def read_cell_def list_all_iff)
  from ml_papers_filter count empty kept show ?thesis by blast
qed

theorem ml_papers_retains_witness:
  "ml_papers [sample_row (py ''Llemma'') (py ''an LLM for mathematics''), sample_row (py ''Self-RAG'') [],
              sample_row [] (py ''a survey''), sample_row (py ''GenBench'') (py ''a framework'')] =
     read_csv [sample_row (py ''Llemma'') (py ''an LLM for mathematics''), sample_row (py ''GenBench'') (py ''a framework'')]
   \<and> length (ml_papers [sample_row (py ''Llemma'') (py ''an LLM for mathematics''), sample_row (py ''Self-RAG'') [],
              sample_row [] (py ''a survey''), sample_row (py ''GenBench'') (py ''a framework'')]) = 4 - 2
   \<and> ml_papers [sample_row [] (py ''a survey'')] = []"
  using ml_papers_retains
    [of "[sample_row (py ''Llemma'') (py ''an LLM for mathematics''), sample_row (py ''Self-RAG'') [],
          sample_row [] (py ''a survey''), sample_row (py ''GenBench'') (py ''a framework'')]"
        "sample_row [] (py ''a survey'')"]
  by (simp add: sample_row_def na_values_def ml_papers_def dropna_def read_csv_def read_cell_def)

text \<open>
  C2 as stated has every row with a non-empty title and a non-empty description
  retained. The row with the title \<open>NA\<close> and a description has both, and the loader drops
  it: \<open>read_csv\<close> reads the title as a missing value.
\<close>

theorem ml_papers_drops_nonempty_counterexample:
  "raw_Title (sample_row (py ''NA'') (py ''a description'')) \<noteq> []
   \<and> raw_Description (sample_row (py ''NA'') (py ''a description'')) \<noteq> []
   \<and> ml_papers [sample_row (py ''NA'') (py ''a description'')] = []"
  by (simp add: sample_row_def ml_papers_def dropna_def read_csv_def read_cell_def na_values_def)

subsection \<open>The prompt composer\<close>

lemma plain_prompt_texts: "plain prompt_text1" "plain prompt_text2" "plain prompt_text3"
  by (simp_all add: plain_append plain_py prompt_text1_def prompt_text2_def prompt_text3_def)

lemma title_template_format:
  "format title_template [(py ''user_query'', q), (py ''short_titles'', s)] = Inr (prompt_template q s)"
proof -
  let ?kw = "map_of [(py ''user_query'', q), (py ''short_titles'', s)]"
  have 1: "format_from ?kw None (prompt_text1 @ cp (CHR ''{'') # (py ''user_query'') @ cp (CHR ''}'') # t) =
      map_sum id ((@) (prompt_text1 @ q)) (format_from ?kw None t)" for t
    by (rule format_from_part [OF plain_prompt_texts(1)]) (simp_all add: plain_py positional_py)
  have 2: "format_from ?kw None (prompt_text2 @ cp (CHR ''{'') # (py ''short_titles'') @ cp (CHR ''}'') # t) =
      map_sum id ((@) (prompt_text2 @ s)) (format_from ?kw None t)" for t
    by (rule format_from_part [OF plain_prompt_texts(2)]) (simp_all add: plain_py positional_py)
  have "format_from ?kw None title_template =
      format_from ?kw None (prompt_text1 @ cp (CHR ''{'') # (py ''user_query'') @ cp (CHR ''}'') #
        (prompt_text2 @ cp (CHR ''{'') # (py ''short_titles'') @ cp (CHR ''}'') # prompt_text3))"
    by (simp add: title_template_def py_simps)
  also have "\<dots> = Inr (prompt_text1 @ q @ prompt_text2 @ s @ prompt_text3)"
    by (simp only: 1 2 format_from_end [OF plain_prompt_texts(3)] map_sum.simps append_assoc)
  finally show ?thesis by (simp only: format_def prompt_template_def)
qed

text \<open>
  C8. The title-suggestion prompt is a function of the original title and the ordered
  retrieved titles alone: equal arguments give equal prompts, and the prompt is the
  fixed template with the original title and the newline-joined retrieved titles
  substituted for its two fields.
\<close>

theorem prompt_template_deterministic:
  "(original_title = original_title' \<and> retrieved_titles = retrieved_titles'
      \<longrightarrow> prompt_template original_title (short_titles retrieved_titles) =
          prompt_template original_title' (short_titles retrieved_titles'))
   \<and> format title_template
        [(py ''user_query'', original_title), (py ''short_titles'', join (py ''\<newline>'') retrieved_titles)] =
       Inr (prompt_template original_title (short_titles retrieved_titles))"
  by (simp add: title_template_format short_titles_def)

theorem prompt_template_deterministic_witness:
  "prompt_template (py ''S3Eval'') (short_titles [py ''Llemma'', py ''Self-RAG'']) =
     prompt_text1 @ py ''S3Eval'' @ prompt_text2 @ py ''Llemma\<newline>Self-RAG'' @ prompt_text3
   \<and> format title_template [(py ''user_query'', py ''S3Eval''), (py ''short_titles'', py ''Llemma\<newline>Self-RAG'')] =
       Inr (prompt_template (py ''S3Eval'') (short_titles [py ''Llemma'', py ''Self-RAG'']))"
  using prompt_template_deterministic
    [of "(py ''S3Eval'')" "(py ''S3Eval'')" "[py ''Llemma'', py ''Self-RAG'']" "[py ''Llemma'', py ''Self-RAG'']"]
  by (simp add: prompt_template_def short_titles_def py_simps)

subsection \<open>Upsert into the vector store\<close>

lemma upsert_one_ids: "set (map doc_id (upsert_one d col)) = insert (doc_id d) (set (map doc_id col))"
  by (induction col) auto

lemma upsert_one_distinct:
  "distinct (map doc_id col) \<Longrightarrow> distinct (map doc_id (upsert_one d col))"
proof (induction col)
  case Nil
  show ?case by simp
next
  case (Cons x col)
  then have "distinct (map doc_id (upsert_one d col))" by simp
  moreover have "doc_id x \<noteq> doc_id d \<Longrightarrow> doc_id x \<notin> set (map doc_id (upsert_one d col))"
    using Cons.prems by (simp add: upsert_one_ids del: set_map)
  ultimately show ?case using Cons.prems by auto
qed

lemma filter_absent_id: "i \<notin> doc_id ` set col \<Longrightarrow> filter (\<lambda>y. doc_id y = i) col = []"
  by (induction col) auto

lemma upsert_one_filter:
  "distinct (map doc_id col) \<Longrightarrow>
   filter (\<lambda>x. doc_id x = i) (upsert_one d col) =
     (if doc_id d = i then [d] else filter (\<lambda>x. doc_id x = i) col)"
proof (induction col)
  case Nil
  show ?case by simp
next
  case (Cons x col)
  have none: "doc_id x \<notin> doc_id ` set col" using Cons.prems by simp
  then have "filter (\<lambda>y. doc_id y = doc_id x) col = []"
    by (rule filter_absent_id)
  with Cons show ?case by auto
qed

lemma upsert_one_others:
  "filter (\<lambda>x. doc_id x \<noteq> doc_id d) (upsert_one d col) = filter (\<lambda>x. doc_id x \<noteq> doc_id d) col"
  by (induction col) auto

lemma upsert_one_again:
  "upsert_one d (upsert_one d' col) = upsert_one d col" if "doc_id d = doc_id d'"
  using that by (induction col) auto

lemma upsert_single:
  "upsert [i] [m] [t] [e] col =
     Inr (upsert_one \<lparr>doc_id = i, doc_text = t, doc_embedding = e, doc_metadata = m\<rparr> col)"
  by (simp add: upsert_def)

text \<open>
  C4. On a collection whose ids are distinct, upserting an id and then upserting the
  same id again with new title, metadata and embedding leaves exactly one document for
  that id, holding the content upserted last; the documents of all other ids are
  untouched, the ids stay distinct, the result is what upserting the last content alone
  gives, and upserting it once more changes nothing.
\<close>

theorem upsert_overwrites:
  "distinct (map doc_id col) \<longrightarrow>
     (\<exists>col1 col2.
        upsert [i] [m1] [t1] [e1] col = Inr col1
      \<and> upsert [i] [m2] [t2] [e2] col1 = Inr col2
      \<and> filter (\<lambda>d. doc_id d = i) col2 =
          [\<lparr>doc_id = i, doc_text = t2, doc_embedding = e2, doc_metadata = m2\<rparr>]
      \<and> filter (\<lambda>d. doc_id d \<noteq> i) col2 = filter (\<lambda>d. doc_id d \<noteq> i) col
      \<and> distinct (map doc_id col2)
      \<and> upsert [i] [m2] [t2] [e2] col2 = Inr col2
      \<and> upsert [i] [m2] [t2] [e2] col = Inr col2)"
proof
  assume dist: "distinct (map doc_id col)"
  let ?d1 = "\<lparr>doc_id = i, doc_text = t1, doc_embedding = e1, doc_metadata = m1\<rparr>"
  let ?d2 = "\<lparr>doc_id = i, doc_text = t2, doc_embedding = e2, doc_metadata = m2\<rparr>"
  let ?col1 = "upsert_one ?d1 col"
  let ?col2 = "upsert_one ?d2 ?col1"
  have d1: "distinct (map doc_id ?col1)" using dist by (rule upsert_one_distinct)
  have "upsert [i] [m1] [t1] [e1] col = Inr ?col1" by (rule upsert_single)
  moreover have "upsert [i] [m2] [t2] [e2] ?col1 = Inr ?col2" by (rule upsert_single)
  moreover have "filter (\<lambda>d. doc_id d = i) ?col2 = [?d2]"
    using upsert_one_filter [OF d1, of i ?d2] by simp
  moreover have "filter (\<lambda>d. doc_id d \<noteq> i) ?col2 = filter (\<lambda>d. doc_id d \<noteq> i) col"
    using upsert_one_others [of ?d2 ?col1] upsert_one_others [of ?d1 col] by simp
  moreover have "distinct (map doc_id ?col2)" using d1 by (rule upsert_one_distinct)
  moreover have "upsert [i] [m2] [t2] [e2] ?col2 = Inr ?col2"
    by (simp add: upsert_single upsert_one_again)
  moreover have "upsert [i] [m2] [t2] [e2] col = Inr ?col2"
    by (simp add: upsert_single upsert_one_again)
  ultimately show "\<exists>col1 col2.
        upsert [i] [m1] [t1] [e1] col = Inr col1
      \<and> upsert [i] [m2] [t2] [e2] col1 = Inr col2
      \<and> filter (\<lambda>d. doc_id d = i) col2 = [?d2]
      \<and> filter (\<lambda>d. doc_id d \<noteq> i) col2 = filter (\<lambda>d. doc_id d \<noteq> i) col
      \<and> distinct (map doc_id col2)
      \<and> upsert [i] [m2] [t2] [e2] col2 = Inr col2
      \<and> upsert [i] [m2] [t2] [e2] col = Inr col2"
    by blast
qed


theorem upsert_overwrites_witness:
  "distinct (map doc_id
      [\<lparr>doc_id = py ''7'', doc_text = py ''Llemma'', doc_embedding = [0::int, 1],
        doc_metadata = \<lparr>url = None, abstract = None\<rparr>\<rparr>])
   \<and> (\<exists>col1.
        upsert [py ''42''] [\<lparr>url = Some (py ''u1''), abstract = None\<rparr>] [py ''Self-RAG''] [[1, 1]]
          [\<lparr>doc_id = py ''7'', doc_text = py ''Llemma'', doc_embedding = [0::int, 1],
            doc_metadata = \<lparr>url = None, abstract = None\<rparr>\<rparr>] = Inr col1
      \<and> upsert [py ''42''] [\<lparr>url = Some (py ''u2''), abstract = Some (py ''a'')\<rparr>] [py ''GenBench''] [[2, 0]] col1 =
          Inr [\<lparr>doc_id = py ''7'', doc_text = py ''Llemma'', doc_embedding = [0, 1],
                 doc_metadata = \<lparr>url = None, abstract = None\<rparr>\<rparr>,
               \<lparr>doc_id = py ''42'', doc_text = py ''GenBench'', doc_embedding = [2, 0],
                 doc_metadata = \<lparr>url = Some (py ''u2''), abstract = Some (py ''a'')\<rparr>\<rparr>])"
  using upsert_overwrites
    [of "[\<lparr>doc_id = py ''7'', doc_text = py ''Llemma'', doc_embedding = [0::int, 1],
           doc_metadata = \<lparr>url = None, abstract = None\<rparr>\<rparr>]"
        "(py ''42'')" "\<lparr>url = Some (py ''u1''), abstract = None\<rparr>" "(py ''Self-RAG'')" "[1, 1]"
        "\<lparr>url = Some (py ''u2''), abstract = Some (py ''a'')\<rparr>" "(py ''GenBench'')" "[2, 0]"]
  by (simp add: upsert_def)

subsection \<open>The similarity retriever\<close>

lemma ranked_sorted:
  "sorted_wrt (\<lambda>a b. similarity q (doc_embedding b) \<le> similarity q (doc_embedding a))
     (ranked similarity q col)"
proof -
  have "sorted (map (\<lambda>d. similarity q (doc_embedding d)) (sort_key (\<lambda>d. similarity q (doc_embedding d)) col))"
    by (rule sorted_sort_key)
  then have "sorted_wrt (\<lambda>a b. similarity q (doc_embedding a) \<le> similarity q (doc_embedding b))
      (sort_key (\<lambda>d. similarity q (doc_embedding d)) col)"
    by (simp add: sorted_map)
  then show ?thesis
    unfolding ranked_def by (simp add: sorted_wrt_rev)
qed

lemma ranked_set: "set (ranked similarity q col) = set col"
  by (simp add: ranked_def)

text \<open>
  C6. For every query text and result count \<open>k\<close>, the retriever returns the texts of at
  most \<open>k\<close> documents of the collection (exactly \<open>k\<close>, or all of them when there are
  fewer), ordered by non-increasing similarity of their embeddings to the embedding of
  the query, and nothing when the collection is empty.
\<close>

theorem retriever_top_k:
  "\<exists>r. query embed_fn similarity col [query_text] k = [r]
      \<and> retriever_results embed_fn similarity col query_text k = Inr (map doc_text r)
      \<and> length r = min k (length col)
      \<and> length r \<le> k
      \<and> sorted_wrt (\<lambda>a b. similarity (embed_fn query_text) (doc_embedding b)
                            \<le> similarity (embed_fn query_text) (doc_embedding a)) r
      \<and> set r \<subseteq> set col
      \<and> (col = [] \<longrightarrow> r = [])"
proof -
  let ?r = "take k (ranked similarity (embed_fn query_text) col)"
  have len: "length (ranked similarity (embed_fn query_text) col) = length col"
    by (simp add: ranked_def)
  have "set ?r \<subseteq> set (ranked similarity (embed_fn query_text) col)"
    by (rule set_take_subset)
  then have sub: "set ?r \<subseteq> set col" by (simp only: ranked_set)
  have "query embed_fn similarity col [query_text] k = [?r]" by (simp add: query_def)
  moreover have "retriever_results embed_fn similarity col query_text k = Inr (map doc_text ?r)"
    by (simp add: retriever_results_def query_def)
  moreover have "length ?r = min k (length col)" using len by simp
  moreover have "length ?r \<le> k" by simp
  moreover have "sorted_wrt (\<lambda>a b. similarity (embed_fn query_text) (doc_embedding b)
                            \<le> similarity (embed_fn query_text) (doc_embedding a)) ?r"
    using ranked_sorted by (rule sorted_wrt_take)
  moreover have "col = [] \<longrightarrow> ?r = []" by (simp add: ranked_def)
  ultimately show ?thesis using sub by blast
qed

text \<open>
  The spec's example: with the titles Self-RAG and Llemma indexed and an embedding that
  places the query nearer to Self-RAG, asking for one result returns Self-RAG; an empty
  collection returns nothing. Embeddings are integers here, nearer is larger.
\<close>

theorem retriever_top_k_witness:
  "retriever_results (\<lambda>t. if t = (py ''Llemma'') then 1 else (5::int)) (\<lambda>a b. - \<bar>a - b\<bar>)
      [\<lparr>doc_id = py ''1'', doc_text = py ''Self-RAG'', doc_embedding = 4,
         doc_metadata = \<lparr>url = None, abstract = None\<rparr>\<rparr>,
       \<lparr>doc_id = py ''2'', doc_text = py ''Llemma'', doc_embedding = 1,
         doc_metadata = \<lparr>url = None, abstract = None\<rparr>\<rparr>]
      (py ''retrieval augmented'') 1 = Inr [py ''Self-RAG'']
   \<and> retriever_results (\<lambda>t. if t = (py ''Llemma'') then 1 else (5::int)) (\<lambda>a b. - \<bar>a - b\<bar>) []
      (py ''retrieval augmented'') 1 = Inr []"
  using retriever_top_k
      [of "\<lambda>t. if t = (py ''Llemma'') then 1 else (5::int)" "\<lambda>a b. - \<bar>a - b\<bar>"
          "[] :: int document list" "(py ''retrieval augmented'')" 1]
    retriever_top_k
      [of "\<lambda>t. if t = (py ''Llemma'') then 1 else (5::int)" "\<lambda>a b. - \<bar>a - b\<bar>"
          "[\<lparr>doc_id = py ''1'', doc_text = py ''Self-RAG'', doc_embedding = 4,
             doc_metadata = \<lparr>url = None, abstract = None\<rparr>\<rparr>,
           \<lparr>doc_id = py ''2'', doc_text = py ''Llemma'', doc_embedding = 1,
             doc_metadata = \<lparr>url = None, abstract = None\<rparr>\<rparr>]"
          "(py ''retrieval augmented'')" 1]
  by (simp add: retriever_results_def query_def ranked_def)

subsection \<open>Decimal strings\<close>

lemma str_nat_unfold: "str_nat n = (if n < 10 then [digit n] else str_nat (n div 10) @ [digit (n mod 10)])"
  by (rule str_nat.simps)

declare str_nat.simps [simp del]

lemma str_nat_not_Nil: "str_nat n \<noteq> []"
  by (subst str_nat_unfold) simp

lemma digit_inj: "d < 10 \<Longrightarrow> d' < 10 \<Longrightarrow> digit d = digit d' \<Longrightarrow> d = d'"
  by (simp add: digit_def)

lemma str_nat_inj: "str_nat m = str_nat n \<Longrightarrow> m = n"
proof (induction m arbitrary: n rule: str_nat.induct)
  case (1 m)
  show ?case
  proof (cases "m < 10")
    case small: True
    show ?thesis
    proof (cases "n < 10")
      case True
      with small "1.prems" have "digit m = digit n"
        by (simp add: str_nat_unfold [of m] str_nat_unfold [of n])
      with small True show ?thesis by (rule digit_inj)
    next
      case False
      with small "1.prems" have "[digit m] = str_nat (n div 10) @ [digit (n mod 10)]"
        by (simp add: str_nat_unfold [of m] str_nat_unfold [of n])
      then have "str_nat (n div 10) = []" by (simp add: Cons_eq_append_conv)
      with str_nat_not_Nil show ?thesis by blast
    qed
  next
    case big: False
    show ?thesis
    proof (cases "n < 10")
      case True
      with big "1.prems" have "str_nat (m div 10) @ [digit (m mod 10)] = [digit n]"
        by (simp add: str_nat_unfold [of m] str_nat_unfold [of n])
      then have "str_nat (m div 10) = []" by (simp add: append_eq_Cons_conv)
      with str_nat_not_Nil show ?thesis by blast
    next
      case False
      with big "1.prems" have "str_nat (m div 10) @ [digit (m mod 10)] = str_nat (n div 10) @ [digit (n mod 10)]"
        by (simp add: str_nat_unfold [of m] str_nat_unfold [of n])
      then have a: "str_nat (m div 10) = str_nat (n div 10)" and b: "digit (m mod 10) = digit (n mod 10)"
        by simp_all
      from "1.IH" [OF big a] have "m div 10 = n div 10" .
      moreover have "m mod 10 = n mod 10" by (rule digit_inj [OF _ _ b]) simp_all
      ultimately show ?thesis by (metis div_mult_mod_eq)
    qed
  qed
qed

lemma str_inj_nonneg: "0 \<le> i \<Longrightarrow> 0 \<le> j \<Longrightarrow> str i = str j \<Longrightarrow> i = j"
  using str_nat_inj [of "nat i" "nat j"] by (simp add: str_def)

lemma digit_0: "digit 0 = cp (CHR ''0'')"
  by (simp add: digit_def)

lemma str_0: "str 0 = py ''0''"
  by (simp add: str_def str_nat_unfold [of 0] digit_0 py_simps)

lemma str_example: "str 1234 = py ''1234''"
  unfolding str_def by code_simp


subsection \<open>Deriving an id from a title\<close>

lemma randint_1_10000:
  "randint 1 10000 g = (1 + int (g 0 mod 10000), \<lambda>n. g (Suc n))"
  by (simp add: randint_def)

lemma length_draws: "length (draws n g) = n"
  by (induction n arbitrary: g) simp_all

lemma draws_range: "list_all (\<lambda>r. 1 \<le> r \<and> r \<le> 10000) (draws n g)"
proof (induction n arbitrary: g)
  case 0
  show ?case by simp
next
  case (Suc n)
  have "g 0 mod 10000 < 10000" by simp
  then have "1 + int (g 0 mod 10000) \<le> 10000" by linarith
  with Suc show ?case by (simp add: randint_1_10000)
qed

lemma title_sum_fold:
  "fold (\<lambda>c (s, g). case randint 1 10000 g of (r, g') \<Rightarrow> (s + (ord c + r), g')) title (s, g) =
     (s + sum_list (map2 (\<lambda>c r. ord c + r) title (draws (length title) g)),
      \<lambda>k. g (k + length title))"
proof -
  define f where "f = (\<lambda>c (s :: int, g). case randint 1 10000 g of (r, g') \<Rightarrow> (s + (ord c + r), g'))"
  have step: "f c (s, g) = (s + (ord c + (1 + int (g 0 mod 10000))), \<lambda>n. g (Suc n))" for c s g
    by (simp add: f_def randint_1_10000)
  have "fold f title (s, g) =
     (s + sum_list (map2 (\<lambda>c r. ord c + r) title (draws (length title) g)),
      \<lambda>k. g (k + length title))"
  proof (induction title arbitrary: s g)
    case Nil
    show ?case by simp
  next
    case (Cons c cs)
    have "fold f (c # cs) (s, g) = fold f cs (s + (ord c + (1 + int (g 0 mod 10000))), \<lambda>n. g (Suc n))"
      by (simp add: step)
    also have "\<dots> = (s + (ord c + (1 + int (g 0 mod 10000)))
          + sum_list (map2 (\<lambda>c r. ord c + r) cs (draws (length cs) (\<lambda>n. g (Suc n)))),
        \<lambda>k. g (Suc (k + length cs)))"
      by (rule Cons.IH)
    also have "\<dots> = (s + sum_list (map2 (\<lambda>c r. ord c + r) (c # cs) (draws (length (c # cs)) g)),
        \<lambda>k. g (k + length (c # cs)))"
      by (simp add: randint_1_10000)
    finally show ?case .
  qed
  then show ?thesis by (simp only: f_def)
qed

lemma title_sum_draws:
  "title_sum title g =
     (sum_list (map2 (\<lambda>c r. ord c + r) title (draws (length title) g)), \<lambda>k. g (k + length title))"
  by (simp add: title_sum_def title_sum_fold)

lemma offsets_sum_lower:
  "length rs = length title \<Longrightarrow> list_all (\<lambda>r. 1 \<le> r) rs \<Longrightarrow>
   int (length title) \<le> sum_list (map2 (\<lambda>c r. ord c + r) title rs)"
proof (induction title arbitrary: rs)
  case Nil
  then show ?case by simp
next
  case (Cons c cs)
  then obtain r rs' where rs: "rs = r # rs'" by (cases rs) simp_all
  with Cons.prems have "length rs' = length cs" "list_all (\<lambda>r. 1 \<le> r) rs'" "1 \<le> r" by simp_all
  with Cons.IH [of rs'] have "int (length cs) \<le> sum_list (map2 (\<lambda>c r. ord c + r) cs rs')" by simp
  moreover have "0 \<le> ord c" by (simp add: ord_def)
  ultimately show ?case using \<open>1 \<le> r\<close> by (simp add: rs)
qed

lemma title_sum_lower: "int (length title) \<le> fst (title_sum title g)"
proof -
  have "list_all (\<lambda>r. 1 \<le> r) (draws (length title) g)"
    using draws_range [of "length title" g] by (simp add: list_all_iff)
  with length_draws [of "length title" g] show ?thesis
    by (simp add: title_sum_draws offsets_sum_lower)
qed

lemma next_draw_differs: "(n + 1) mod 10000 \<noteq> (n :: nat) mod 10000"
proof
  assume "(n + 1) mod 10000 = n mod 10000"
  then have "Suc n mod 10000 = n mod 10000" by simp
  then show False by (simp add: mod_Suc split: if_splits)
qed

lemma draws_add: "draws (m + n) g = draws m g @ draws n (\<lambda>k. g (k + m))"
proof (induction m arbitrary: g)
  case 0
  show ?case by simp
next
  case (Suc m)
  show ?case by (simp add: Suc.IH randint_1_10000)
qed

lemma paper_id_draws:
  "Title paper = Some title \<Longrightarrow>
   paper_id paper g =
     (Inr (str (sum_list (map2 (\<lambda>c r. ord c + r) title (draws (length title) g)))),
      \<lambda>k. g (k + length title))"
  by (simp add: paper_id_def title_sum_draws)

lemma zip_append_longer: "length ys = length xs \<Longrightarrow> zip xs (ys @ zs) = zip xs ys"
  by (induction xs arbitrary: ys) (auto simp: length_Suc_conv)

lemma batch_ids_title_sums:
  "map Title batch = map Some titles \<Longrightarrow>
   batch_ids batch g =
     (Inr (map str (title_sums titles (draws (length (concat titles)) g))),
      \<lambda>k. g (k + length (concat titles)))"
proof (induction batch arbitrary: titles g)
  case Nil
  then show ?case by simp
next
  case (Cons p batch)
  then obtain t ts where titles: "titles = t # ts" and p: "Title p = Some t"
    and rest: "map Title batch = map Some ts"
    by (cases titles) auto
  let ?g1 = "\<lambda>k. g (k + length t)"
  let ?all = "draws (length (concat (t # ts))) g"
  have split: "?all = draws (length t) g @ draws (length (concat ts)) ?g1"
    using draws_add [of "length t" "length (concat ts)" g] by simp
  have head: "sum_list (map2 (\<lambda>c r. ord c + r) t ?all) =
      sum_list (map2 (\<lambda>c r. ord c + r) t (draws (length t) g))"
    unfolding split by (simp add: zip_append_longer length_draws)
  have tail: "drop (length t) ?all = draws (length (concat ts)) ?g1"
    unfolding split by (simp add: length_draws)
  have sums: "title_sums (t # ts) ?all =
      sum_list (map2 (\<lambda>c r. ord c + r) t (draws (length t) g))
        # title_sums ts (draws (length (concat ts)) ?g1)"
    by (simp only: title_sums.simps head tail)
  have gen: "(\<lambda>k. ?g1 (k + length (concat ts))) = (\<lambda>k. g (k + length (concat (t # ts))))"
    by (simp add: ac_simps)
  have "batch_ids batch ?g1 =
      (Inr (map str (title_sums ts (draws (length (concat ts)) ?g1))),
       \<lambda>k. ?g1 (k + length (concat ts)))"
    using rest by (rule Cons.IH)
  then have "batch_ids (p # batch) g =
      (Inr (map str (title_sums (t # ts) ?all)), \<lambda>k. ?g1 (k + length (concat ts)))"
    by (simp only: batch_ids.simps paper_id_draws [OF p] sums prod.case sum.case list.map)
  then show ?case by (simp only: gen titles)
qed

lemma offsets_sum_nonneg:
  "list_all (\<lambda>x. 0 \<le> x) rs \<Longrightarrow> 0 \<le> sum_list (map2 (\<lambda>c r. ord c + r) cs rs)"
proof (induction cs arbitrary: rs)
  case Nil
  show ?case by simp
next
  case (Cons c cs)
  show ?case
  proof (cases rs)
    case Nil
    then show ?thesis by simp
  next
    case (Cons r rs')
    with Cons.prems Cons.IH [of rs'] show ?thesis by (simp add: ord_def)
  qed
qed

lemma title_sums_first_offset:
  assumes "r \<noteq> r'" "0 \<le> r" "0 \<le> r'" "list_all (\<lambda>x. 0 \<le> x) rs"
  shows "concat titles \<noteq> [] \<Longrightarrow>
    map str (title_sums titles (r # rs)) \<noteq> map str (title_sums titles (r' # rs))"
proof (induction titles)
  case Nil
  then show ?case by simp
next
  case (Cons t ts)
  show ?case
  proof (cases t)
    case Nil
    with Cons show ?thesis by simp
  next
    case (Cons c cs)
    let ?S = "sum_list (map2 (\<lambda>c r. ord c + r) cs rs)"
    have S: "0 \<le> ?S" using assms(4) by (rule offsets_sum_nonneg)
    have c: "0 \<le> ord c" by (simp add: ord_def)
    have "str (ord c + r + ?S) \<noteq> str (ord c + r' + ?S)"
    proof
      assume "str (ord c + r + ?S) = str (ord c + r' + ?S)"
      moreover have "0 \<le> ord c + r + ?S" "0 \<le> ord c + r' + ?S"
        using S c assms(2,3) by simp_all
      ultimately have "ord c + r + ?S = ord c + r' + ?S" by (intro str_inj_nonneg)
      with assms(1) show False by simp
    qed
    then show ?thesis by (simp add: Cons)
  qed
qed

lemma title_sums_nth:
  "k < length titles \<Longrightarrow>
   title_sums titles offsets ! k =
     sum_list (map2 (\<lambda>c r. ord c + r) (titles ! k) (drop (length (concat (take k titles))) offsets))"
proof (induction titles arbitrary: k offsets)
  case Nil
  then show ?case by simp
next
  case (Cons t ts)
  show ?case
  proof (cases k)
    case 0
    then show ?thesis by simp
  next
    case (Suc j)
    with Cons.prems have "j < length ts" by simp
    from Cons.IH [OF this, of "drop (length t) offsets"] show ?thesis
      by (simp add: Suc add.commute)
  qed
qed

lemma length_title_sums: "length (title_sums titles offsets) = length titles"
  by (induction titles arbitrary: offsets) simp_all

lemma batch_ids_next_draw:
  assumes "map Title batch = map Some titles" "concat titles \<noteq> []"
  shows "fst (batch_ids batch (g(0 := g 0 + 1))) \<noteq> fst (batch_ids batch g)"
proof -
  from assms(2) obtain n where n: "length (concat titles) = Suc n"
    by (cases "length (concat titles)") simp_all
  let ?rs = "draws n (\<lambda>k. g (Suc k))"
  let ?r = "1 + int (g 0 mod 10000)"
  let ?r' = "1 + int ((g 0 + 1) mod 10000)"
  have d: "draws (Suc n) g = ?r # ?rs" by (simp add: randint_1_10000)
  have d': "draws (Suc n) (g(0 := g 0 + 1)) = ?r' # ?rs" by (simp add: randint_1_10000)
  have "(g 0 + 1) mod 10000 \<noteq> g 0 mod 10000" by (rule next_draw_differs)
  then have ne: "?r' \<noteq> ?r" by simp
  have "list_all (\<lambda>x. 0 \<le> x) ?rs"
    using draws_range [of n "\<lambda>k. g (Suc k)"] by (auto simp: list_all_iff)
  with ne have "map str (title_sums titles (?r' # ?rs)) \<noteq> map str (title_sums titles (?r # ?rs))"
    using assms(2) by (intro title_sums_first_offset) simp_all
  moreover have "fst (batch_ids batch (g(0 := g 0 + 1))) = Inr (map str (title_sums titles (?r' # ?rs)))"
    by (simp only: batch_ids_title_sums [OF assms(1)] n d' fst_conv)
  moreover have "fst (batch_ids batch g) = Inr (map str (title_sums titles (?r # ?rs)))"
    by (simp only: batch_ids_title_sums [OF assms(1)] n d fst_conv)
  ultimately show ?thesis by simp
qed

text \<open>
  C3. For a batch whose records have title text, the ids that \<open>batch_ids\<close> derives are
  the decimal strings of the sums, over the characters of each title, of the character
  code plus an offset. The offsets are the results of one \<open>randint(1, 10000)\<close> call per
  character, each between 1 and 10000, taken in order through the batch (the record at
  position \<open>k\<close> uses the offsets after those of the titles before it), and the generator
  is left advanced by the number of characters of all titles. The ids depend on the
  generator: when some title of the batch is not empty, changing the next draw changes
  the ids, so two runs on the same titles can derive different ids.
\<close>

theorem batch_ids_random_sums:
  "map Title batch = map Some titles \<longrightarrow>
     batch_ids batch g =
       (Inr (map str (title_sums titles (draws (length (concat titles)) g))),
        \<lambda>k. g (k + length (concat titles)))
     \<and> length (draws (length (concat titles)) g) = length (concat titles)
     \<and> list_all (\<lambda>r. 1 \<le> r \<and> r \<le> 10000) (draws (length (concat titles)) g)
     \<and> (\<forall>k < length batch. \<exists>ids g'.
          batch_ids batch g = (Inr ids, g') \<and> length ids = length batch
        \<and> ids ! k =
            str (sum_list (map2 (\<lambda>c r. ord c + r) (titles ! k)
                   (drop (length (concat (take k titles))) (draws (length (concat titles)) g)))))
     \<and> (concat titles \<noteq> [] \<longrightarrow>
          fst (batch_ids batch (g(0 := g 0 + 1))) \<noteq> fst (batch_ids batch g))"
proof
  assume t: "map Title batch = map Some titles"
  then have len: "length titles = length batch" by (metis length_map)
  let ?offsets = "draws (length (concat titles)) g"
  have ids: "batch_ids batch g =
      (Inr (map str (title_sums titles ?offsets)), \<lambda>k. g (k + length (concat titles)))"
    using t by (rule batch_ids_title_sums)
  have each: "\<forall>k < length batch. \<exists>ids g'.
          batch_ids batch g = (Inr ids, g') \<and> length ids = length batch
        \<and> ids ! k =
            str (sum_list (map2 (\<lambda>c r. ord c + r) (titles ! k)
                   (drop (length (concat (take k titles))) ?offsets)))"
  proof (intro allI impI)
    fix k
    assume k: "k < length batch"
    then have "map str (title_sums titles ?offsets) ! k =
        str (sum_list (map2 (\<lambda>c r. ord c + r) (titles ! k)
               (drop (length (concat (take k titles))) ?offsets)))"
      by (simp add: len length_title_sums title_sums_nth)
    with ids show "\<exists>ids g'.
          batch_ids batch g = (Inr ids, g') \<and> length ids = length batch
        \<and> ids ! k =
            str (sum_list (map2 (\<lambda>c r. ord c + r) (titles ! k)
                   (drop (length (concat (take k titles))) ?offsets)))"
      by (simp add: length_title_sums len)
  qed
  have differ: "concat titles \<noteq> [] \<longrightarrow>
      fst (batch_ids batch (g(0 := g 0 + 1))) \<noteq> fst (batch_ids batch g)"
    using batch_ids_next_draw [OF t] by blast
  from ids each differ length_draws [of "length (concat titles)" g]
    draws_range [of "length (concat titles)" g]
  show "batch_ids batch g =
       (Inr (map str (title_sums titles ?offsets)), \<lambda>k. g (k + length (concat titles)))
     \<and> length ?offsets = length (concat titles)
     \<and> list_all (\<lambda>r. 1 \<le> r \<and> r \<le> 10000) ?offsets
     \<and> (\<forall>k < length batch. \<exists>ids g'.
          batch_ids batch g = (Inr ids, g') \<and> length ids = length batch
        \<and> ids ! k =
            str (sum_list (map2 (\<lambda>c r. ord c + r) (titles ! k)
                   (drop (length (concat (take k titles))) ?offsets))))
     \<and> (concat titles \<noteq> [] \<longrightarrow>
          fst (batch_ids batch (g(0 := g 0 + 1))) \<noteq> fst (batch_ids batch g))"
    by blast
qed

lemma str_samples: "str 197 = py ''197''" "str 198 = py ''198''" "str 100 = py ''100''" "str 8365 = py ''8365''"
  unfolding str_def by code_simp+

theorem batch_ids_random_sums_witness:
  "map Title [sample_paper (py ''ab''), sample_paper [8364]] = map Some [py ''ab'', [8364]]
   \<and> fst (batch_ids [sample_paper (py ''ab''), sample_paper [8364]] (\<lambda>_. 0)) = Inr [py ''197'', py ''8365'']
   \<and> fst (batch_ids [sample_paper (py ''ab''), sample_paper [8364]] ((\<lambda>_. 0)(0 := 1))) = Inr [py ''198'', py ''8365'']
   \<and> fst (batch_ids [sample_paper (py ''ab''), sample_paper [8364]] ((\<lambda>_. 0)(0 := 1)))
        \<noteq> fst (batch_ids [sample_paper (py ''ab''), sample_paper [8364]] (\<lambda>_. 0))"
  using batch_ids_random_sums [of "[sample_paper (py ''ab''), sample_paper [8364]]" "[py ''ab'', [8364]]" "\<lambda>_. 0"]
    batch_ids_random_sums
      [of "[sample_paper (py ''ab''), sample_paper [8364]]" "[py ''ab'', [8364]]" "(\<lambda>_. 0)(0 := 1)"]
  by (simp add: sample_paper_def randint_1_10000 ord_def str_samples numeral_3_eq_3 py_simps cp_def)

subsection \<open>Batches\<close>

lemma range_step_unfold:
  "range_step i n step = (if i < n \<and> 0 < step then i # range_step (i + step) n step else [])"
  by (rule range_step.simps)

declare range_step.simps [simp del]

lemma range_step_below: "list_all (\<lambda>j. j < n) (range_step i n step)"
proof (induction i n step rule: range_step.induct)
  case (1 i n step)
  then show ?case by (subst range_step_unfold) simp
qed

lemma slice_drop: "slice i (i + step) xs @ drop (i + step) xs = drop i xs"
proof -
  have "take step (drop i xs) @ drop step (drop i xs) = drop i xs"
    by (rule append_take_drop_id)
  then show ?thesis by (simp add: slice_def add.commute)
qed

lemma concat_slices:
  "0 < step \<Longrightarrow>
   concat (map (\<lambda>j. slice j (j + step) xs) (range_step i (length xs) step)) = drop i xs"
proof (induction i "length xs" step rule: range_step.induct)
  case (1 i step)
  show ?case
  proof (cases "i < length xs")
    case True
    with 1 have "concat (map (\<lambda>j. slice j (j + step) xs) (range_step (i + step) (length xs) step)) =
        drop (i + step) xs"
      by simp
    then show ?thesis
      using True "1.prems" by (subst range_step_unfold) (simp add: slice_drop)
  next
    case False
    then show ?thesis by (subst range_step_unfold) simp
  qed
qed

lemma slice_bounds:
  "i < length xs \<Longrightarrow> 0 < step \<Longrightarrow> slice i (i + step) xs \<noteq> [] \<and> length (slice i (i + step) xs) \<le> step"
  by (simp add: slice_def)

lemma batch_ids_append:
  "batch_ids (xs @ ys) g =
     (case batch_ids xs g of
        (Inl e, g') \<Rightarrow> (Inl e, g')
      | (Inr ids, g') \<Rightarrow>
          (case batch_ids ys g' of
             (Inl e, g'') \<Rightarrow> (Inl e, g'')
           | (Inr ids', g'') \<Rightarrow> (Inr (ids @ ids'), g'')))"
  by (induction xs arbitrary: g) (simp_all split: prod.splits sum.splits)

lemma batch_ids_length: "batch_ids xs g = (Inr ids, g') \<Longrightarrow> length ids = length xs"
  by (induction xs arbitrary: g ids) (auto split: prod.splits sum.splits)

lemma paper_id_titled: "Title paper \<noteq> None \<Longrightarrow> \<exists>i g'. paper_id paper g = (Inr i, g')"
  by (auto simp: paper_id_def split: prod.splits)

lemma batch_ids_titled:
  "list_all (\<lambda>p. Title p \<noteq> None) xs \<Longrightarrow> \<exists>ids g'. batch_ids xs g = (Inr ids, g')"
proof (induction xs arbitrary: g)
  case Nil
  show ?case by simp
next
  case (Cons p xs)
  then obtain i g1 where p: "paper_id p g = (Inr i, g1)"
    using paper_id_titled [of p g] by auto
  from Cons obtain ids g2 where "batch_ids xs g1 = (Inr ids, g2)" by fastforce
  with p show ?case by simp
qed

lemma documents_of_append:
  "length ms = length ids \<Longrightarrow> length ts = length ids \<Longrightarrow> length es = length ids \<Longrightarrow>
   documents_of (ids @ ids') (ms @ ms') (ts @ ts') (es @ es') =
     documents_of ids ms ts es @ documents_of ids' ms' ts' es'"
proof (induction ids arbitrary: ms ts es)
  case Nil
  then show ?case by simp
next
  case (Cons i ids)
  then obtain m ms1 t ts1 e es1 where "ms = m # ms1" "ts = t # ts1" "es = e # es1"
    by (cases ms; cases ts; cases es) simp_all
  with Cons show ?case by simp
qed

lemma batch_documents_append:
  "length ids = length xs \<Longrightarrow>
   batch_documents encode (xs @ ys) (ids @ ids') =
     batch_documents encode xs ids @ batch_documents encode ys ids'"
  by (simp add: batch_documents_def batch_metadata_def batch_titles_def documents_of_append)

lemma index_batch_ids:
  "batch_ids xs g = (Inr ids, g') \<Longrightarrow>
   index_batch upsert encode xs (g, col) = (Inr (), (g', fold upsert_one (batch_documents encode xs ids) col))"
  using batch_ids_length [of xs g ids g']
  by (simp add: index_batch_def upsert_def batch_documents_def batch_metadata_def batch_titles_def)

lemma index_batch_append:
  assumes "list_all (\<lambda>p. Title p \<noteq> None) (xs @ ys)"
  shows "index_batch upsert encode (xs @ ys) st =
     (case index_batch upsert encode xs st of
        (Inl e, st') \<Rightarrow> (Inl e, st')
      | (Inr u, st') \<Rightarrow> index_batch upsert encode ys st')"
proof -
  obtain g col where st: "st = (g, col)" by (cases st)
  from assms have tx: "list_all (\<lambda>p. Title p \<noteq> None) xs" and ty: "list_all (\<lambda>p. Title p \<noteq> None) ys"
    by simp_all
  from batch_ids_titled [OF tx] obtain ids g1 where x: "batch_ids xs g = (Inr ids, g1)" by blast
  from batch_ids_titled [OF ty] obtain ids' g2 where y: "batch_ids ys g1 = (Inr ids', g2)" by blast
  from x y have xy: "batch_ids (xs @ ys) g = (Inr (ids @ ids'), g2)"
    by (simp add: batch_ids_append)
  have len: "length ids = length xs" using x by (rule batch_ids_length)
  show ?thesis
    unfolding st
    by (simp add: index_batch_ids [OF xy] index_batch_ids [OF x] index_batch_ids [OF y]
        batch_documents_append [OF len])
qed

lemma index_batch_Nil: "index_batch upsert encode [] st = (Inr (), st)"
  by (cases st) (simp add: index_batch_def upsert_def batch_metadata_def batch_titles_def)

lemma index_loop_drop:
  assumes "list_all (\<lambda>p. Title p \<noteq> None) papers"
  shows "index_loop upsert encode papers (range_step i (length papers) batch_size) st =
           index_batch upsert encode (drop i papers) st"
proof (induction i "length papers" batch_size arbitrary: st rule: range_step.induct)
  case (1 i)
  show ?case
  proof (cases "i < length papers")
    case True
    have "list_all (\<lambda>p. Title p \<noteq> None) (drop i papers)"
      using assms by (auto simp: list_all_iff dest: in_set_dropD)
    then have titled: "list_all (\<lambda>p. Title p \<noteq> None)
        (slice i (i + batch_size) papers @ drop (i + batch_size) papers)"
      by (simp only: slice_drop)
    have pos: "0 < batch_size" by (simp add: batch_size_def)
    have "index_loop upsert encode papers (range_step i (length papers) batch_size) st =
        (case index_batch upsert encode (slice i (i + batch_size) papers) st of
           (Inl e, st') \<Rightarrow> (Inl e, st')
         | (Inr u, st') \<Rightarrow> index_loop upsert encode papers (range_step (i + batch_size) (length papers) batch_size) st')"
      using True pos by (subst range_step_unfold) simp
    also have "\<dots> =
        (case index_batch upsert encode (slice i (i + batch_size) papers) st of
           (Inl e, st') \<Rightarrow> (Inl e, st')
         | (Inr u, st') \<Rightarrow> index_batch upsert encode (drop (i + batch_size) papers) st')"
      using "1" [OF conjI [OF True pos]] by (simp split: prod.splits sum.splits)
    also have "\<dots> =
        index_batch upsert encode (slice i (i + batch_size) papers @ drop (i + batch_size) papers) st"
      by (simp only: index_batch_append [OF titled])
    also have "\<dots> = index_batch upsert encode (drop i papers) st"
      by (simp only: slice_drop)
    finally show ?thesis .
  next
    case False
    then show ?thesis by (subst range_step_unfold) (simp add: index_batch_Nil)
  qed
qed


lemma documents_of_fields:
  "length ms = length ids \<Longrightarrow> length ts = length ids \<Longrightarrow> length es = length ids \<Longrightarrow>
   map doc_id (documents_of ids ms ts es) = ids
   \<and> map doc_text (documents_of ids ms ts es) = ts
   \<and> map doc_embedding (documents_of ids ms ts es) = es
   \<and> map doc_metadata (documents_of ids ms ts es) = ms"
proof (induction ids arbitrary: ms ts es)
  case Nil
  then show ?case by simp
next
  case (Cons i ids)
  then obtain m ms1 t ts1 e es1 where "ms = m # ms1" "ts = t # ts1" "es = e # es1"
    by (cases ms; cases ts; cases es) simp_all
  with Cons show ?case by simp
qed

lemma batch_documents_fields:
  assumes "length ids = length batch"
  shows "map doc_id (batch_documents encode batch ids) = ids"
    and "map doc_text (batch_documents encode batch ids) = batch_titles batch"
    and "map doc_embedding (batch_documents encode batch ids) = map encode (batch_titles batch)"
    and "map doc_metadata (batch_documents encode batch ids) = batch_metadata batch"
  using documents_of_fields [of "batch_metadata batch" ids "batch_titles batch" "map encode (batch_titles batch)"]
    assms
  by (simp_all add: batch_documents_def batch_metadata_def batch_titles_def)

lemma ml_papers_dict_titled: "list_all (\<lambda>p. Title p \<noteq> None) (ml_papers_dict rows)"
  by (simp add: ml_papers_dict_def ml_papers_def dropna_def list_all_iff)

lemma index_papers_one_batch:
  "list_all (\<lambda>p. Title p \<noteq> None) papers \<Longrightarrow>
   index_papers upsert encode papers st = index_batch upsert encode papers st"
  using index_loop_drop [of papers encode 0 st] by (simp add: index_papers_def)


lemma concat_batches: "concat (batches papers) = papers"
  using concat_slices [of batch_size papers 0] by (simp add: batches_def batch_size_def)

lemma batches_bounds: "list_all (\<lambda>b. b \<noteq> [] \<and> length b \<le> 50) (batches papers)"
proof -
  have "list_all (\<lambda>j. j < length papers) (range_step 0 (length papers) batch_size)"
    by (rule range_step_below)
  then show ?thesis
    using slice_bounds [of _ papers batch_size]
    by (auto simp: batches_def list_all_iff batch_size_def)
qed

lemma index_batch_recording:
  "batch_ids b g = (Inr ids, g1) \<Longrightarrow>
   index_batch (recording_upsert upsert) encode b (g, (log, col)) =
     (Inr (), (g1,
        (log @ [\<lparr>call_ids = ids, call_metadatas = batch_metadata b,
                  call_documents = batch_titles b,
                  call_embeddings = map encode (batch_titles b)\<rparr>],
         fold upsert_one (batch_documents encode b ids) col)))"
  using batch_ids_length [of b g ids g1]
  by (simp add: index_batch_def recording_upsert_def upsert_def batch_documents_def
      batch_metadata_def batch_titles_def)

lemma index_loop_recording:
  assumes "list_all (\<lambda>p. Title p \<noteq> None) papers"
  shows "batch_ids (drop i papers) g = (Inr ids, g') \<Longrightarrow>
    index_loop (recording_upsert upsert) encode papers
        (range_step i (length papers) batch_size) (g, (log, col)) =
      (Inr (), (g',
        (log @ batch_calls encode
                 (map (\<lambda>j. slice j (j + batch_size) papers)
                    (range_step i (length papers) batch_size)) g,
         fold upsert_one (batch_documents encode (drop i papers) ids) col)))"
proof (induction i "length papers" batch_size arbitrary: g log col ids rule: range_step.induct)
  case (1 i)
  show ?case
  proof (cases "i < length papers")
    case True
    let ?b = "slice i (i + batch_size) papers"
    let ?rest = "drop (i + batch_size) papers"
    have pos: "0 < batch_size" by (simp add: batch_size_def)
    have split: "drop i papers = ?b @ ?rest" by (simp only: slice_drop)
    have "list_all (\<lambda>p. Title p \<noteq> None) (drop i papers)"
      using assms by (auto simp: list_all_iff dest: in_set_dropD)
    then have tb: "list_all (\<lambda>p. Title p \<noteq> None) ?b"
      unfolding split by simp
    from batch_ids_titled [OF tb] obtain ids_b g1 where b: "batch_ids ?b g = (Inr ids_b, g1)"
      by blast
    from "1.prems" have "batch_ids (?b @ ?rest) g = (Inr ids, g')" by (simp only: split)
    with b obtain ids_r where r: "batch_ids ?rest g1 = (Inr ids_r, g')" and ids: "ids = ids_b @ ids_r"
      by (auto simp: batch_ids_append split: prod.splits sum.splits)
    have len: "length ids_b = length ?b" using b by (rule batch_ids_length)
    let ?call = "\<lparr>call_ids = ids_b, call_metadatas = batch_metadata ?b,
        call_documents = batch_titles ?b, call_embeddings = map encode (batch_titles ?b)\<rparr>"
    have step: "range_step i (length papers) batch_size =
        i # range_step (i + batch_size) (length papers) batch_size"
      using True pos by (subst range_step_unfold) simp
    have "index_loop (recording_upsert upsert) encode papers
        (range_step i (length papers) batch_size) (g, (log, col)) =
      index_loop (recording_upsert upsert) encode papers
        (range_step (i + batch_size) (length papers) batch_size)
        (g1, (log @ [?call], fold upsert_one (batch_documents encode ?b ids_b) col))"
      by (simp add: step index_batch_recording [OF b])
    also have "\<dots> =
      (Inr (), (g',
        ((log @ [?call]) @ batch_calls encode
                 (map (\<lambda>j. slice j (j + batch_size) papers)
                    (range_step (i + batch_size) (length papers) batch_size)) g1,
         fold upsert_one (batch_documents encode ?rest ids_r)
           (fold upsert_one (batch_documents encode ?b ids_b) col))))"
      using "1.hyps" [OF conjI [OF True pos] r] .
    also have "\<dots> =
      (Inr (), (g',
        (log @ batch_calls encode
                 (map (\<lambda>j. slice j (j + batch_size) papers)
                    (range_step i (length papers) batch_size)) g,
         fold upsert_one (batch_documents encode (drop i papers) ids) col)))"
      by (simp add: step b split ids batch_documents_append [OF len])
    finally show ?thesis .
  next
    case False
    with "1.prems" have "ids = []" "g' = g" by simp_all
    with False show ?thesis
      by (subst (1 2) range_step_unfold) (simp add: batch_documents_def)
  qed
qed

lemma batch_calls_arguments:
  "list_all (\<lambda>p. Title p \<noteq> None) (concat bs) \<Longrightarrow>
   map call_documents (batch_calls encode bs g) = map batch_titles bs
   \<and> map call_metadatas (batch_calls encode bs g) = map batch_metadata bs
   \<and> map call_embeddings (batch_calls encode bs g) = map (\<lambda>b. map encode (batch_titles b)) bs
   \<and> map (\<lambda>c. length (call_ids c)) (batch_calls encode bs g) = map length bs"
proof (induction bs arbitrary: g)
  case Nil
  show ?case by simp
next
  case (Cons b bs)
  then have tb: "list_all (\<lambda>p. Title p \<noteq> None) b"
    and rest: "list_all (\<lambda>p. Title p \<noteq> None) (concat bs)"
    by simp_all
  from batch_ids_titled [OF tb] obtain ids g1 where b: "batch_ids b g = (Inr ids, g1)" by blast
  have "length ids = length b" using b by (rule batch_ids_length)
  with Cons.IH [OF rest, of g1] b show ?case by simp
qed

lemma batch_calls_ids:
  "batch_ids (concat bs) g = (Inr ids, g') \<Longrightarrow>
   concat (map call_ids (batch_calls encode bs g)) = ids"
proof (induction bs arbitrary: g ids)
  case Nil
  then show ?case by simp
next
  case (Cons b bs)
  then obtain ids_b g1 ids_r where b: "batch_ids b g = (Inr ids_b, g1)"
    and r: "batch_ids (concat bs) g1 = (Inr ids_r, g')" and ids: "ids = ids_b @ ids_r"
    by (auto simp: batch_ids_append split: prod.splits sum.splits)
  from Cons.IH [OF r] b ids show ?case by simp
qed

lemma batch_titles_concat: "concat (map batch_titles bs) = batch_titles (concat bs)"
  by (induction bs) (simp_all add: batch_titles_def)

text \<open>
  C5. The indexing loop cuts the sequence of records into consecutive batches that are
  never empty and never longer than 50, and whose concatenation is the sequence itself.
  On a sequence whose records have title text, as every loaded sequence has, the loop
  does not raise and makes exactly one \<open>upsert\<close> call per batch, in order. The call for a
  batch carries the titles of that batch, their embeddings, their metadata and one id
  per record, so the documents of all calls together are the titles of the input
  sequence, each record once: no record is skipped or duplicated at a batch boundary, a
  final partial batch included. The collection ends as if all records had been upserted
  one after the other.
\<close>

theorem index_batches_cover:
  "(list_all (\<lambda>p. Title p \<noteq> None) papers \<longrightarrow>
      (\<exists>ids g' calls.
          batch_ids papers g = (Inr ids, g')
        \<and> index_papers (recording_upsert upsert) encode papers (g, ([], col)) =
            (Inr (), (g', (calls, fold upsert_one (batch_documents encode papers ids) col)))
        \<and> index_papers upsert encode papers (g, col) =
            (Inr (), (g', fold upsert_one (batch_documents encode papers ids) col))
        \<and> map call_documents calls = map batch_titles (batches papers)
        \<and> map call_metadatas calls = map batch_metadata (batches papers)
        \<and> map call_embeddings calls = map (\<lambda>b. map encode (batch_titles b)) (batches papers)
        \<and> map (\<lambda>c. length (call_ids c)) calls = map length (batches papers)
        \<and> concat (map call_ids calls) = ids
        \<and> concat (map call_documents calls) = batch_titles papers))
   \<and> concat (batches papers) = papers
   \<and> list_all (\<lambda>b. b \<noteq> [] \<and> length b \<le> 50) (batches papers)
   \<and> list_all (\<lambda>p. Title p \<noteq> None) (ml_papers_dict rows)"
proof -
  have run: "\<exists>ids g' calls.
          batch_ids papers g = (Inr ids, g')
        \<and> index_papers (recording_upsert upsert) encode papers (g, ([], col)) =
            (Inr (), (g', (calls, fold upsert_one (batch_documents encode papers ids) col)))
        \<and> index_papers upsert encode papers (g, col) =
            (Inr (), (g', fold upsert_one (batch_documents encode papers ids) col))
        \<and> map call_documents calls = map batch_titles (batches papers)
        \<and> map call_metadatas calls = map batch_metadata (batches papers)
        \<and> map call_embeddings calls = map (\<lambda>b. map encode (batch_titles b)) (batches papers)
        \<and> map (\<lambda>c. length (call_ids c)) calls = map length (batches papers)
        \<and> concat (map call_ids calls) = ids
        \<and> concat (map call_documents calls) = batch_titles papers"
    if titled: "list_all (\<lambda>p. Title p \<noteq> None) papers"
  proof -
    obtain ids g' where ids: "batch_ids papers g = (Inr ids, g')"
      using batch_ids_titled [OF titled] by blast
    let ?calls = "batch_calls encode (batches papers) g"
    have "index_loop (recording_upsert upsert) encode papers
        (range_step 0 (length papers) batch_size) (g, ([], col)) =
      (Inr (), (g',
        ([] @ batch_calls encode
                 (map (\<lambda>j. slice j (j + batch_size) papers)
                    (range_step 0 (length papers) batch_size)) g,
         fold upsert_one (batch_documents encode (drop 0 papers) ids) col)))"
      using titled by (rule index_loop_recording) (simp add: ids)
    then have rec: "index_papers (recording_upsert upsert) encode papers (g, ([], col)) =
        (Inr (), (g', (?calls, fold upsert_one (batch_documents encode papers ids) col)))"
      by (simp add: index_papers_def batches_def)
    have plain: "index_papers upsert encode papers (g, col) =
        (Inr (), (g', fold upsert_one (batch_documents encode papers ids) col))"
      by (simp only: index_papers_one_batch [OF titled] index_batch_ids [OF ids])
    have tc: "list_all (\<lambda>p. Title p \<noteq> None) (concat (batches papers))"
      using titled by (simp only: concat_batches)
    note args = batch_calls_arguments [OF tc, of encode g]
    have "batch_ids (concat (batches papers)) g = (Inr ids, g')"
      using ids by (simp only: concat_batches)
    then have cids: "concat (map call_ids ?calls) = ids" by (rule batch_calls_ids)
    have "concat (map call_documents ?calls) = concat (map batch_titles (batches papers))"
      using args by simp
    also have "\<dots> = batch_titles (concat (batches papers))"
      by (rule batch_titles_concat)
    finally have docs: "concat (map call_documents ?calls) = batch_titles papers"
      by (simp only: concat_batches)
    from ids rec plain args cids docs show ?thesis by blast
  qed
  from run concat_batches batches_bounds ml_papers_dict_titled show ?thesis by blast
qed

lemma batches_51: "batches (replicate 51 p) = [replicate 50 p, [p]]"
  by (simp add: batches_def batch_size_def slice_def range_step_unfold [of 0]
      range_step_unfold [of 50] range_step_unfold [of 100])

theorem index_batches_cover_witness:
  "list_all (\<lambda>p. Title p \<noteq> None) (replicate 51 (sample_paper (py ''ab'')))
   \<and> fst (index_papers (recording_upsert upsert) length (replicate 51 (sample_paper (py ''ab'')))
          (\<lambda>_. 0, ([], []))) = Inr ()
   \<and> map call_documents (fst (snd (snd
          (index_papers (recording_upsert upsert) length (replicate 51 (sample_paper (py ''ab'')))
             (\<lambda>_. 0, ([], [])))))) = [replicate 50 (py ''ab''), [py ''ab'']]
   \<and> map (\<lambda>c. length (call_ids c)) (fst (snd (snd
          (index_papers (recording_upsert upsert) length (replicate 51 (sample_paper (py ''ab'')))
             (\<lambda>_. 0, ([], [])))))) = [50, 1]
   \<and> concat (batches (replicate 51 (sample_paper (py ''ab'')))) = replicate 51 (sample_paper (py ''ab''))"
proof -
  let ?ps = "replicate 51 (sample_paper (py ''ab''))"
  have titled: "list_all (\<lambda>p. Title p \<noteq> None) ?ps"
    by (simp add: list_all_iff sample_paper_def)
  from index_batches_cover [of ?ps "\<lambda>_. 0" length "[]" "[]"] titled
  obtain ids g' calls where
    run: "index_papers (recording_upsert upsert) length ?ps (\<lambda>_. 0, ([], [])) =
        (Inr (), (g', (calls, fold upsert_one (batch_documents length ?ps ids) [])))"
    and docs: "map call_documents calls = map batch_titles (batches ?ps)"
    and lens: "map (\<lambda>c. length (call_ids c)) calls = map length (batches ?ps)"
    and cover: "concat (batches ?ps) = ?ps"
    by blast
  have "map batch_titles (batches ?ps) = [replicate 50 (py ''ab''), [py ''ab'']]"
    by (simp add: batches_51 batch_titles_def sample_paper_def str_cell_def)
  moreover have "map length (batches ?ps) = [50, 1]"
    by (simp add: batches_51)
  ultimately show ?thesis
    using titled run docs lens cover by simp
qed

subsection \<open>Records without title text\<close>

lemma distinct_filter_id:
  "distinct (map doc_id col) \<Longrightarrow> length (filter (\<lambda>d. doc_id d = i) col) \<le> 1"
proof (induction col)
  case Nil
  show ?case by simp
next
  case (Cons x col)
  then have "doc_id x \<notin> doc_id ` set col" by simp
  then have "filter (\<lambda>y. doc_id y = doc_id x) col = []" by (rule filter_absent_id)
  with Cons show ?case by auto
qed

lemma fold_upsert_one_distinct:
  "distinct (map doc_id col) \<Longrightarrow> distinct (map doc_id (fold upsert_one docs col))"
  by (induction docs arbitrary: col) (simp_all add: upsert_one_distinct)

lemma fold_upsert_one_filter:
  "distinct (map doc_id col) \<Longrightarrow>
   filter (\<lambda>d. doc_id d = i) (fold upsert_one docs col) =
     (if filter (\<lambda>d. doc_id d = i) docs = [] then filter (\<lambda>d. doc_id d = i) col
      else [last (filter (\<lambda>d. doc_id d = i) docs)])"
proof (induction docs arbitrary: col)
  case Nil
  show ?case by simp
next
  case (Cons d docs)
  have "distinct (map doc_id (upsert_one d col))" using Cons.prems by (rule upsert_one_distinct)
  from Cons.IH [OF this] upsert_one_filter [OF Cons.prems, of i d] show ?case by simp
qed

lemma title_sum_Nil: "title_sum [] g = (0, g)"
  by (simp add: title_sum_def)

lemma paper_id_zero:
  assumes "paper_id paper g = (Inr i, g')"
  shows "i = (py ''0'') \<longleftrightarrow> Title paper = Some []"
proof -
  from assms obtain title where t: "Title paper = Some title"
    by (cases "Title paper") (simp_all add: paper_id_def)
  with assms have i: "i = str (fst (title_sum title g))"
    by (auto simp: paper_id_def split: prod.splits)
  show ?thesis
  proof (cases "title = []")
    case True
    with i t show ?thesis by (simp add: title_sum_Nil str_0)
  next
    case False
    then have "1 \<le> int (length title)" by (cases title) simp_all
    with title_sum_lower [of title g] have pos: "1 \<le> fst (title_sum title g)" by linarith
    have "str (fst (title_sum title g)) \<noteq> str 0"
    proof
      assume "str (fst (title_sum title g)) = str 0"
      with pos have "fst (title_sum title g) = 0" by (intro str_inj_nonneg) simp_all
      with pos show False by simp
    qed
    with i t False show ?thesis by (simp add: str_0)
  qed
qed

lemma batch_documents_Cons:
  "batch_documents encode (p # ps) (i # ids) =
     \<lparr>doc_id = i,
      doc_text = (if str_cell (Title p) \<noteq> [] then str_cell (Title p) else (py ''No Title'')),
      doc_embedding = encode (if str_cell (Title p) \<noteq> [] then str_cell (Title p) else (py ''No Title'')),
      doc_metadata = \<lparr>url = PaperURL p, abstract = Abstract p\<rparr>\<rparr> # batch_documents encode ps ids"
  by (simp add: batch_documents_def batch_metadata_def batch_titles_def)

lemma batch_documents_zero:
  "batch_ids ps g = (Inr ids, g') \<Longrightarrow>
   filter (\<lambda>d. doc_id d = py ''0'') (batch_documents encode ps ids) =
     map (no_title_document encode) (filter (\<lambda>p. Title p = Some []) ps)"
proof (induction ps arbitrary: g ids)
  case Nil
  then show ?case by (simp add: batch_documents_def)
next
  case (Cons p ps)
  from Cons.prems obtain i g1 ids1 where
    p: "paper_id p g = (Inr i, g1)" and rest: "batch_ids ps g1 = (Inr ids1, g')" and ids: "ids = i # ids1"
    by (auto split: prod.splits sum.splits)
  from Cons.IH [OF rest] paper_id_zero [OF p] show ?case
    by (auto simp: ids batch_documents_Cons no_title_document_def str_cell_def)
qed


text \<open>
  C10. A record whose title is the empty string is indexed with the text \<open>No Title\<close>
  and with the id \<open>0\<close>, whatever the generator holds (no draw is made). After indexing
  a sequence of records that have title text, empty or not, into a collection with
  distinct ids, the loop has not raised and the collection holds at most one document
  with the id \<open>0\<close>; when the sequence has records with an empty title, that document is
  the one of the last such record, so each later one has replaced the earlier one.
\<close>

theorem empty_titles_share_id:
  "(Title paper = Some [] \<longrightarrow>
      paper_id paper g = (Inr (py ''0''), g) \<and> batch_titles [paper] = [py ''No Title''])
   \<and> (list_all (\<lambda>p. Title p \<noteq> None) papers \<and> distinct (map doc_id col)
        \<and> index_papers upsert encode papers (g, col) = (r, (g', col')) \<longrightarrow>
      r = Inr ()
      \<and> length (filter (\<lambda>d. doc_id d = py ''0'') col') \<le> 1
      \<and> filter (\<lambda>d. doc_id d = py ''0'') col' =
          (if filter (\<lambda>p. Title p = Some []) papers = []
           then filter (\<lambda>d. doc_id d = py ''0'') col
           else [no_title_document encode (last (filter (\<lambda>p. Title p = Some []) papers))]))"
proof -
  have first: "paper_id paper g = (Inr (py ''0''), g) \<and> batch_titles [paper] = [py ''No Title'']"
    if "Title paper = Some []"
    using that by (simp add: paper_id_def title_sum_Nil str_0 batch_titles_def str_cell_def)
  let ?ps = papers
  let ?empties = "filter (\<lambda>p. Title p = Some []) ?ps"
  have second: "r = Inr ()
      \<and> length (filter (\<lambda>d. doc_id d = py ''0'') col') \<le> 1
      \<and> filter (\<lambda>d. doc_id d = py ''0'') col' =
          (if ?empties = [] then filter (\<lambda>d. doc_id d = py ''0'') col
           else [no_title_document encode (last ?empties)])"
    if a: "list_all (\<lambda>p. Title p \<noteq> None) papers \<and> distinct (map doc_id col)
        \<and> index_papers upsert encode ?ps (g, col) = (r, (g', col'))"
  proof -
    from a have dist: "distinct (map doc_id col)" and titled: "list_all (\<lambda>p. Title p \<noteq> None) papers"
      by simp_all
    obtain ids g1 where ids: "batch_ids ?ps g = (Inr ids, g1)"
      using batch_ids_titled [OF titled] by blast
    have "index_papers upsert encode ?ps (g, col) =
        (Inr (), (g1, fold upsert_one (batch_documents encode ?ps ids) col))"
      by (simp only: index_papers_one_batch [OF titled] index_batch_ids [OF ids])
    with a have r: "r = Inr ()" and col': "col' = fold upsert_one (batch_documents encode ?ps ids) col"
      by simp_all
    have "distinct (map doc_id col')"
      unfolding col' using dist by (rule fold_upsert_one_distinct)
    then have one: "length (filter (\<lambda>d. doc_id d = py ''0'') col') \<le> 1"
      by (rule distinct_filter_id)
    have zero: "filter (\<lambda>d. doc_id d = py ''0'') (batch_documents encode ?ps ids) =
        map (no_title_document encode) ?empties"
      using ids by (rule batch_documents_zero)
    have "filter (\<lambda>d. doc_id d = py ''0'') col' =
        (if ?empties = [] then filter (\<lambda>d. doc_id d = py ''0'') col
         else [no_title_document encode (last ?empties)])"
      unfolding col' fold_upsert_one_filter [OF dist] zero
      by (simp add: last_map)
    with r one show ?thesis by simp
  qed
  from first second show ?thesis by blast
qed

lemma range_step_small: "0 < n \<Longrightarrow> n \<le> 50 \<Longrightarrow> range_step 0 n 50 = [0]"
  by (simp add: range_step_unfold [of 0] range_step_unfold [of 50])

theorem empty_titles_share_id_witness:
  "paper_id (sample_paper []) (\<lambda>_. 0) = (Inr (py ''0''), \<lambda>_. 0)
   \<and> batch_titles [sample_paper []] = [py ''No Title'']
   \<and> fst (index_papers upsert length
        [sample_paper [], sample_paper (py ''ab''), (sample_paper [])\<lparr>PaperURL := None\<rparr>]
        (\<lambda>_. 0, [])) = Inr ()
   \<and> snd (snd (index_papers upsert length
        [sample_paper [], sample_paper (py ''ab''), (sample_paper [])\<lparr>PaperURL := None\<rparr>]
        (\<lambda>_. 0, []))) =
       [no_title_document length ((sample_paper [])\<lparr>PaperURL := None\<rparr>),
        \<lparr>doc_id = py ''197'', doc_text = py ''ab'', doc_embedding = 2,
          doc_metadata = \<lparr>url = Some (py ''https://arxiv.org/abs/0000.00000''), abstract = None\<rparr>\<rparr>]"
proof -
  let ?records = "[sample_paper [], sample_paper (py ''ab''), (sample_paper [])\<lparr>PaperURL := None\<rparr>]"
  have run: "index_papers upsert length ?records (\<lambda>_. 0, []) =
      (Inr (), (\<lambda>_. 0,
        [no_title_document length ((sample_paper [])\<lparr>PaperURL := None\<rparr>),
         \<lparr>doc_id = py ''197'', doc_text = py ''ab'', doc_embedding = 2,
           doc_metadata = \<lparr>url = Some (py ''https://arxiv.org/abs/0000.00000''), abstract = None\<rparr>\<rparr>]))"
    by (simp add: index_papers_def sample_paper_def
        batch_size_def range_step_small slice_def index_batch_def paper_id_def title_sum_def
        randint_1_10000 ord_def str_0 str_samples upsert_def batch_metadata_def batch_titles_def
        py_simps cp_def
        str_cell_def no_title_document_def)
  from run empty_titles_share_id
    [where paper = "sample_paper []" and g = "\<lambda>_. 0" and col = "[]" and encode = length
        and papers = ?records and r = "Inr ()" and g' = "\<lambda>_. 0" and col' =
        "[no_title_document length ((sample_paper [])\<lparr>PaperURL := None\<rparr>),
         \<lparr>doc_id = py ''197'', doc_text = py ''ab'', doc_embedding = 2,
           doc_metadata = \<lparr>url = Some (py ''https://arxiv.org/abs/0000.00000''), abstract = None\<rparr>\<rparr>]"]
  have "paper_id (sample_paper []) (\<lambda>_. 0) = (Inr (py ''0''), \<lambda>_. 0)
      \<and> batch_titles [sample_paper []] = [py ''No Title'']"
    by (simp add: sample_paper_def)
  with run show ?thesis by simp
qed

end
